theory Spec2Isabelle
  imports Complex_Main "HOL-Library.AList"
begin

section \<open>Numbers, clocks and field names\<close>

text \<open>
  A JavaScript \<open>number\<close> that carries a measurement, a price or a timestamp is a
  rational here: the arithmetic of the code (\<open>+\<close>, \<open>-\<close>, \<open>*\<close>, comparisons) is
  exact on the values the statements below use. Sequence numbers of the topic are
  integers. Every read of \<open>Date.now()\<close> is an argument \<open>now\<close> of the operation that
  reads the clock; one operation runs synchronously and sees one clock value.

  The TypeScript interfaces share field names (\<open>deviceId\<close>, \<open>totalVolume\<close>,
  \<open>status\<close>, ...). A record field is a constant of the theory, so each record
  prefixes its fields: \<open>wf_\<close> WaterFlowMessage, \<open>ds_\<close> DeviceStatusMessage,
  \<open>dr_\<close> DeviceRegistry, \<open>tr_\<close> a tracking entry of the pipeline, \<open>vr_\<close>
  VerificationResult, \<open>tm_\<close> TopicMessage, \<open>pm_\<close> ProcessedMessage, \<open>ws_\<close>
  WaterSession, \<open>fe_\<close> WaterFlowEvent, \<open>dv_\<close> DeviceStatus, \<open>sd_\<close> the argument
  of createSession, \<open>st_\<close> the statistics.
\<close>

type_synonym number = rat

section \<open>messageFormats.ts\<close>

datatype valveStatus = OPEN | CLOSED

datatype deviceState = ONLINE | OFFLINE | MAINTENANCE | ERROR

datatype health = OK | WARNING | FAULT

record diagnostics =
  pumpStatus :: health
  sensorStatus :: health
  networkStatus :: health
  memoryUsage :: number
  uptime :: number

record WaterFlowMessage =
  wf_timestamp :: number
  wf_deviceId :: string
  wf_wellId :: string
  wf_signature :: string
  wf_sessionId :: string
  wf_userId :: string
  wf_pulseCount :: number
  wf_flowRate :: number
  wf_totalVolume :: number
  wf_valveStatus :: valveStatus
  wf_pressure :: number
  wf_temperature :: number

record DeviceStatusMessage =
  ds_timestamp :: number
  ds_deviceId :: string
  ds_wellId :: string
  ds_signature :: string
  ds_status :: deviceState
  ds_batteryLevel :: number
  ds_signalStrength :: number
  ds_lastMaintenance :: number
  ds_errorCode :: "string option"
  ds_diagnostics :: diagnostics

text \<open>The tagged union \<open>HCSMessage\<close>; the tag is the field \<open>messageType\<close>.\<close>

datatype HCSMessage = WATER_FLOW WaterFlowMessage | DEVICE_STATUS DeviceStatusMessage

fun timestamp :: "HCSMessage \<Rightarrow> number" where
  "timestamp (WATER_FLOW m) = wf_timestamp m"
| "timestamp (DEVICE_STATUS m) = ds_timestamp m"

fun deviceId :: "HCSMessage \<Rightarrow> string" where
  "deviceId (WATER_FLOW m) = wf_deviceId m"
| "deviceId (DEVICE_STATUS m) = ds_deviceId m"

fun wellId :: "HCSMessage \<Rightarrow> string" where
  "wellId (WATER_FLOW m) = wf_wellId m"
| "wellId (DEVICE_STATUS m) = ds_wellId m"

fun signature :: "HCSMessage \<Rightarrow> string" where
  "signature (WATER_FLOW m) = wf_signature m"
| "signature (DEVICE_STATUS m) = ds_signature m"

subsection \<open>Validation and serialization, on untyped values\<close>

text \<open>
  The validators take \<open>any\<close>, and \<open>serializeMessage\<close> and \<open>deserializeMessage\<close>
  go through \<open>JSON.stringify\<close> and \<open>JSON.parse\<close>, so this part works on
  JavaScript values as the runtime has them: \<open>undefined\<close>, \<open>null\<close>, booleans,
  numbers, strings, arrays and plain objects (the own enumerable properties in their
  order). A number is a finite value, \<open>NaN\<close> or one of the infinities; finite
  doubles are rationals here and the negative zero is not told apart from 0.
\<close>

datatype jsnumber = Finite rat | NaN | PosInfinity | NegInfinity

datatype jsvalue =
    VUndefined
  | VNull
  | VBool bool
  | VNumber jsnumber
  | VString string
  | VArray "jsvalue list"
  | VObject "(string \<times> jsvalue) list"

datatype json =
    JNull
  | JBool bool
  | JNumber rat
  | JString string
  | JArray "json list"
  | JObject "(string \<times> json) list"

text \<open>
  \<open>properValue\<close>: the property names of every object are distinct, as they are in
  every JavaScript object.
\<close>

fun properValue :: "jsvalue \<Rightarrow> bool"
  and properElements :: "jsvalue list \<Rightarrow> bool"
  and properProperties :: "(string \<times> jsvalue) list \<Rightarrow> bool" where
  "properValue (VArray xs) = properElements xs"
| "properValue (VObject ps) = (distinct (map fst ps) \<and> properProperties ps)"
| "properValue v = True"
| "properElements [] = True"
| "properElements (x # xs) = (properValue x \<and> properElements xs)"
| "properProperties [] = True"
| "properProperties (p # ps) = (properValue (snd p) \<and> properProperties ps)"

text \<open>\<open>typeof\<close>, truthiness, and the read \<open>message.name\<close> of a property.\<close>

definition typeof :: "jsvalue \<Rightarrow> string" where
  "typeof v =
     (case v of
        VUndefined \<Rightarrow> ''undefined''
      | VNull \<Rightarrow> ''object''
      | VBool b \<Rightarrow> ''boolean''
      | VNumber n \<Rightarrow> ''number''
      | VString s \<Rightarrow> ''string''
      | VArray xs \<Rightarrow> ''object''
      | VObject ps \<Rightarrow> ''object'')"

definition truthy :: "jsvalue \<Rightarrow> bool" where
  "truthy v =
     (case v of
        VUndefined \<Rightarrow> False
      | VNull \<Rightarrow> False
      | VBool b \<Rightarrow> b
      | VNumber n \<Rightarrow> (case n of Finite r \<Rightarrow> r \<noteq> 0 | NaN \<Rightarrow> False | _ \<Rightarrow> True)
      | VString s \<Rightarrow> s \<noteq> []
      | VArray xs \<Rightarrow> True
      | VObject ps \<Rightarrow> True)"

text \<open>
  \<open>property\<close> is the read on a value other than \<open>undefined\<close> and \<open>null\<close>; none
  of the names the validators read is a property of an array or of the wrapper of a
  primitive. On \<open>undefined\<close> and \<open>null\<close> the read throws a TypeError: such a value
  is not \<open>readable\<close>, and a validator given it returns \<open>None\<close>.
\<close>

definition property :: "jsvalue \<Rightarrow> string \<Rightarrow> jsvalue" where
  "property v name =
     (case v of
        VObject ps \<Rightarrow> (case map_of ps name of Some x \<Rightarrow> x | None \<Rightarrow> VUndefined)
      | _ \<Rightarrow> VUndefined)"

definition readable :: "jsvalue \<Rightarrow> bool" where
  "readable v = (v \<noteq> VUndefined \<and> v \<noteq> VNull)"

text \<open>
  The three validators of messageFormats.ts. The first two carry the suffix
  \<open>_format\<close>: the verification pipeline has methods of the same names. The
  result is whether the chain of \<open>&&\<close> is truthy, which is all that the caller
  tests; \<open>includes\<close> compares with the listed strings.
\<close>

definition validateWaterFlowMessage_format :: "jsvalue \<Rightarrow> bool option" where
  "validateWaterFlowMessage_format message =
     (if \<not> readable message then None
      else Some
        (property message ''messageType'' = VString ''WATER_FLOW'' \<and>
         typeof (property message ''timestamp'') = ''number'' \<and>
         typeof (property message ''deviceId'') = ''string'' \<and>
         typeof (property message ''wellId'') = ''string'' \<and>
         typeof (property message ''signature'') = ''string'' \<and>
         typeof (property message ''sessionId'') = ''string'' \<and>
         typeof (property message ''userId'') = ''string'' \<and>
         typeof (property message ''pulseCount'') = ''number'' \<and>
         typeof (property message ''flowRate'') = ''number'' \<and>
         typeof (property message ''totalVolume'') = ''number'' \<and>
         property message ''valveStatus'' \<in> set [VString ''OPEN'', VString ''CLOSED''] \<and>
         typeof (property message ''pressure'') = ''number'' \<and>
         typeof (property message ''temperature'') = ''number''))"

definition validateDeviceStatusMessage_format :: "jsvalue \<Rightarrow> bool option" where
  "validateDeviceStatusMessage_format message =
     (if \<not> readable message then None
      else Some
        (property message ''messageType'' = VString ''DEVICE_STATUS'' \<and>
         typeof (property message ''timestamp'') = ''number'' \<and>
         typeof (property message ''deviceId'') = ''string'' \<and>
         typeof (property message ''wellId'') = ''string'' \<and>
         typeof (property message ''signature'') = ''string'' \<and>
         property message ''status'' \<in>
           set [VString ''ONLINE'', VString ''OFFLINE'', VString ''MAINTENANCE'', VString ''ERROR''] \<and>
         typeof (property message ''batteryLevel'') = ''number'' \<and>
         typeof (property message ''signalStrength'') = ''number'' \<and>
         typeof (property message ''lastMaintenance'') = ''number'' \<and>
         truthy (property message ''diagnostics'') \<and>
         typeof (property message ''diagnostics'') = ''object''))"

definition validateHCSMessage :: "jsvalue \<Rightarrow> bool option" where
  "validateHCSMessage message =
     (if \<not> readable message then None
      else if property message ''messageType'' = VString ''WATER_FLOW''
      then validateWaterFlowMessage_format message
      else if property message ''messageType'' = VString ''DEVICE_STATUS''
      then validateDeviceStatusMessage_format message
      else Some False)"

text \<open>
  \<open>JSON.stringify\<close> and \<open>JSON.parse\<close> are built into the runtime; they are
  modelled from their definition in ECMA-262 (SerializeJSONProperty,
  SerializeJSONObject, SerializeJSONArray; JSON.parse without a reviver). A JSON
  text is kept as its syntax tree \<open>json\<close>, not as characters. \<open>stringify\<close> is
  \<open>None\<close> where \<open>JSON.stringify\<close> returns \<open>undefined\<close>; it prints a number that is
  not finite as \<open>null\<close>, an undefined array element as \<open>null\<close>, and leaves out a
  property whose value is undefined. \<open>parse\<close> builds an object member by member, a
  repeated name overwriting the value it had.
\<close>

fun stringify :: "jsvalue \<Rightarrow> json option"
  and stringifyElements :: "jsvalue list \<Rightarrow> json list"
  and stringifyProperties :: "(string \<times> jsvalue) list \<Rightarrow> (string \<times> json) list" where
  "stringify VUndefined = None"
| "stringify VNull = Some JNull"
| "stringify (VBool b) = Some (JBool b)"
| "stringify (VNumber n) = Some (case n of Finite r \<Rightarrow> JNumber r | _ \<Rightarrow> JNull)"
| "stringify (VString s) = Some (JString s)"
| "stringify (VArray xs) = Some (JArray (stringifyElements xs))"
| "stringify (VObject ps) = Some (JObject (stringifyProperties ps))"
| "stringifyElements [] = []"
| "stringifyElements (x # xs) =
     (case stringify x of None \<Rightarrow> JNull | Some j \<Rightarrow> j) # stringifyElements xs"
| "stringifyProperties [] = []"
| "stringifyProperties (p # ps) =
     (case stringify (snd p) of
        None \<Rightarrow> stringifyProperties ps
      | Some j \<Rightarrow> (fst p, j) # stringifyProperties ps)"

fun parse :: "json \<Rightarrow> jsvalue"
  and parseElements :: "json list \<Rightarrow> jsvalue list"
  and parseMembers :: "(string \<times> json) list \<Rightarrow> (string \<times> jsvalue) list \<Rightarrow> (string \<times> jsvalue) list" where
  "parse JNull = VNull"
| "parse (JBool b) = VBool b"
| "parse (JNumber r) = VNumber (Finite r)"
| "parse (JString s) = VString s"
| "parse (JArray js) = VArray (parseElements js)"
| "parse (JObject ms) = VObject (parseMembers ms [])"
| "parseElements [] = []"
| "parseElements (j # js) = parse j # parseElements js"
| "parseMembers [] acc = acc"
| "parseMembers (m # ms) acc = parseMembers ms (AList.update (fst m) (parse (snd m)) acc)"

text \<open>
  The string argument of \<open>deserializeMessage\<close> is \<open>Some\<close> JSON text, or \<open>None\<close>
  for a string that is no JSON text, on which \<open>JSON.parse\<close> throws; every exception
  inside the \<open>try\<close> gives \<open>null\<close>, which is \<open>None\<close> in the result.
\<close>

definition serializeMessage :: "jsvalue \<Rightarrow> json option" where
  "serializeMessage message = stringify message"

definition deserializeMessage :: "json option \<Rightarrow> jsvalue option" where
  "deserializeMessage data =
     (case data of
        None \<Rightarrow> None
      | Some text \<Rightarrow>
          (case validateHCSMessage (parse text) of
             Some True \<Rightarrow> Some (parse text)
           | Some False \<Rightarrow> None
           | None \<Rightarrow> None))"

text \<open>
  A value that JSON text can carry: no \<open>undefined\<close> and no number that is not
  finite, anywhere in it.
\<close>

fun jsonable :: "jsvalue \<Rightarrow> bool"
  and jsonableElements :: "jsvalue list \<Rightarrow> bool"
  and jsonableProperties :: "(string \<times> jsvalue) list \<Rightarrow> bool" where
  "jsonable VUndefined = False"
| "jsonable VNull = True"
| "jsonable (VBool b) = True"
| "jsonable (VNumber n) = (case n of Finite r \<Rightarrow> True | _ \<Rightarrow> False)"
| "jsonable (VString s) = True"
| "jsonable (VArray xs) = jsonableElements xs"
| "jsonable (VObject ps) = jsonableProperties ps"
| "jsonableElements [] = True"
| "jsonableElements (x # xs) = (jsonable x \<and> jsonableElements xs)"
| "jsonableProperties [] = True"
| "jsonableProperties (p # ps) = (jsonable (snd p) \<and> jsonableProperties ps)"


section \<open>verificationPipeline.ts\<close>

record DeviceRegistry =
  dr_deviceId :: string
  dr_wellId :: string
  dr_publicKey :: string
  dr_isActive :: bool
  dr_lastSeen :: number
  dr_owner :: string

record VerificationResult =
  vr_isValid :: bool
  vr_errors :: "string list"
  vr_warnings :: "string list"
  vr_deviceInfo :: "DeviceRegistry option"

text \<open>An entry of the pipeline's private map \<open>activeSessions\<close>.\<close>

record tracking =
  tr_startTime :: number
  tr_totalVolume :: number

text \<open>
  The state of a \<open>MessageVerificationPipeline\<close>: its two maps. Nothing iterates
  over them in \<open>verifyMessage\<close>, so they are partial functions.
\<close>

record pipeline =
  vp_deviceRegistry :: "string \<rightharpoonup> DeviceRegistry"
  vp_activeSessions :: "string \<rightharpoonup> tracking"

definition maxTimestampDrift :: number where
  "maxTimestampDrift = 5 * 60 * 1000"

definition maxSessionDuration :: number where
  "maxSessionDuration = 60 * 60 * 1000"

definition registerDevice :: "DeviceRegistry \<Rightarrow> pipeline \<Rightarrow> pipeline" where
  "registerDevice device p =
     p\<lparr>vp_deviceRegistry := (vp_deviceRegistry p)(dr_deviceId device \<mapsto> device)\<rparr>"

definition getDevice :: "string \<Rightarrow> pipeline \<Rightarrow> DeviceRegistry option" where
  "getDevice d p = vp_deviceRegistry p d"

definition validateTimestamp :: "number \<Rightarrow> number \<Rightarrow> bool" where
  "validateTimestamp now ts = (\<bar>now - ts\<bar> \<le> maxTimestampDrift)"

text \<open>The template string \<open>`${message.deviceId}-${message.sessionId}`\<close>.\<close>

definition sessionKey :: "WaterFlowMessage \<Rightarrow> string" where
  "sessionKey message = wf_deviceId message @ ''-'' @ wf_sessionId message"

text \<open>
  \<open>validateWaterFlowMessage\<close> returns its error list and leaves the tracking map
  changed: a key that was absent is set to the message's timestamp and volume; an
  entry that was present (the object \<open>existingSession\<close>, read before the branch)
  has its \<open>totalVolume\<close> overwritten at the end, whatever errors were pushed.
  The degree sign in the text of the last error is written out.
\<close>

definition validateWaterFlowMessage ::
  "WaterFlowMessage \<Rightarrow> (string \<rightharpoonup> tracking) \<Rightarrow> string list \<times> (string \<rightharpoonup> tracking)" where
  "validateWaterFlowMessage message tracks =
     (let existingSession = tracks (sessionKey message);
          errors1 =
            (case existingSession of
               Some ex \<Rightarrow>
                 (if wf_timestamp message - tr_startTime ex > maxSessionDuration
                  then [''Session duration exceeds maximum allowed time''] else []) @
                 (if wf_totalVolume message < tr_totalVolume ex
                  then [''Total volume cannot decrease during session''] else [])
             | None \<Rightarrow> []);
          tracks1 =
            (case existingSession of
               Some ex \<Rightarrow> tracks
             | None \<Rightarrow>
                 tracks(sessionKey message \<mapsto>
                   \<lparr>tr_startTime = wf_timestamp message,
                    tr_totalVolume = wf_totalVolume message\<rparr>));
          errors2 =
            (if wf_flowRate message < 0 then [''Flow rate cannot be negative''] else []) @
            (if wf_totalVolume message < 0 then [''Total volume cannot be negative''] else []) @
            (if wf_pulseCount message < 0 then [''Pulse count cannot be negative''] else []) @
            (if wf_pressure message < 0 \<or> wf_pressure message > 200
             then [''Pressure reading out of valid range (0-200 PSI)''] else []) @
            (if wf_temperature message < - 10 \<or> wf_temperature message > 60
             then [''Temperature reading out of valid range (-10 to 60 degrees C)''] else []);
          tracks2 =
            (case existingSession of
               Some ex \<Rightarrow>
                 tracks1(sessionKey message \<mapsto> ex\<lparr>tr_totalVolume := wf_totalVolume message\<rparr>)
             | None \<Rightarrow> tracks1)
      in (errors1 @ errors2, tracks2))"

definition validateDeviceStatusMessage :: "DeviceStatusMessage \<Rightarrow> string list" where
  "validateDeviceStatusMessage message =
     (if ds_batteryLevel message < 0 \<or> ds_batteryLevel message > 100
      then [''Battery level must be between 0 and 100''] else []) @
     (if ds_signalStrength message < - 120 \<or> ds_signalStrength message > 0
      then [''Signal strength out of valid range (-120 to 0 dBm)''] else []) @
     (if memoryUsage (ds_diagnostics message) < 0 \<or> memoryUsage (ds_diagnostics message) > 100
      then [''Memory usage must be between 0 and 100''] else []) @
     (if uptime (ds_diagnostics message) < 0 then [''Uptime cannot be negative''] else [])"

text \<open>
  \<open>verifySignature\<close>. The source binds the name \<open>ed25519\<close> by a named import from
  the package @noble/ed25519 and calls \<open>ed25519.verify\<close> inside a \<open>try\<close> whose
  \<open>catch\<close> returns false. The binding is the parameter \<open>ed25519\<close>: \<open>None\<close> when
  the module has no export of that name, so that reading \<open>.verify\<close> of it throws
  and the result is false; \<open>Some verify\<close> otherwise, where \<open>verify\<close> is the answer
  of the library on the signature, the message (whose other fields are the signed
  payload) and the public key, an exception inside it being the answer false.
\<close>

definition verifySignature ::
  "(string \<Rightarrow> HCSMessage \<Rightarrow> string \<Rightarrow> bool) option \<Rightarrow> HCSMessage \<Rightarrow> string \<Rightarrow> bool" where
  "verifySignature ed25519 message publicKey =
     (case ed25519 of
        None \<Rightarrow> False
      | Some verify \<Rightarrow> verify (signature message) message publicKey)"

text \<open>
  \<open>verifyMessage\<close>. Its first argument \<open>check\<close> is the signature check it calls,
  \<open>verifySignature\<close> with the binding of the import. The device record is mutated
  in place (\<open>lastSeen\<close>), and \<open>deviceInfo\<close> is that same object.
\<close>

definition statusWarnings :: "HCSMessage \<Rightarrow> string list" where
  "statusWarnings message =
     (case message of
        DEVICE_STATUS statusMsg \<Rightarrow>
          (if ds_batteryLevel statusMsg < 20 then [''Device battery level is low''] else []) @
          (if ds_signalStrength statusMsg < - 90 then [''Device signal strength is weak''] else [])
      | WATER_FLOW m \<Rightarrow> [])"

definition verifyMessage ::
  "(HCSMessage \<Rightarrow> string \<Rightarrow> bool) \<Rightarrow> number \<Rightarrow> HCSMessage \<Rightarrow> pipeline
     \<Rightarrow> VerificationResult \<times> pipeline" where
  "verifyMessage check now message p =
     (case getDevice (deviceId message) p of
        None \<Rightarrow>
          (\<lparr>vr_isValid = False, vr_errors = [''Device not registered in the system''],
            vr_warnings = [], vr_deviceInfo = None\<rparr>, p)
      | Some device \<Rightarrow>
          (let e1 = (if \<not> dr_isActive device then [''Device is not active''] else []);
               e2 = (if dr_wellId device \<noteq> wellId message
                     then [''Device is not associated with the specified well''] else []);
               e3 = (if \<not> validateTimestamp now (timestamp message)
                     then [''Message timestamp is outside acceptable range''] else []);
               e4 = (if \<not> check message (dr_publicKey device)
                     then [''Message signature verification failed''] else []);
               (e5, tracks) =
                 (case message of
                    WATER_FLOW m \<Rightarrow> validateWaterFlowMessage m (vp_activeSessions p)
                  | DEVICE_STATUS m \<Rightarrow> (validateDeviceStatusMessage m, vp_activeSessions p));
               device' = device\<lparr>dr_lastSeen := timestamp message\<rparr>;
               errors = e1 @ e2 @ e3 @ e4 @ e5
           in (\<lparr>vr_isValid = (errors = []), vr_errors = errors,
                 vr_warnings = statusWarnings message, vr_deviceInfo = Some device'\<rparr>,
               p\<lparr>vp_deviceRegistry := (vp_deviceRegistry p)(deviceId message \<mapsto> device'),
                 vp_activeSessions := tracks\<rparr>)))"

text \<open>
  A run of the pipeline over flow events, each with the clock value at which it is
  verified: the verification results in order, and the final state.
\<close>

fun verifyFlows ::
  "(HCSMessage \<Rightarrow> string \<Rightarrow> bool) \<Rightarrow> (number \<times> WaterFlowMessage) list \<Rightarrow> pipeline
     \<Rightarrow> VerificationResult list \<times> pipeline" where
  "verifyFlows check [] p = ([], p)"
| "verifyFlows check ((now, m) # evs) p =
     (let (r, p1) = verifyMessage check now (WATER_FLOW m) p;
          (rs, p2) = verifyFlows check evs p1
      in (r # rs, p2))"

text \<open>The cumulative volumes of the accepted events of a run, in order.\<close>

definition acceptedVolumes ::
  "(HCSMessage \<Rightarrow> string \<Rightarrow> bool) \<Rightarrow> (number \<times> WaterFlowMessage) list \<Rightarrow> pipeline
     \<Rightarrow> number list" where
  "acceptedVolumes check evs p =
     map (wf_totalVolume \<circ> snd \<circ> snd)
       (filter (vr_isValid \<circ> fst) (zip (fst (verifyFlows check evs p)) evs))"

section \<open>mirrorNodeClient.ts: the ingestion client\<close>

record MirrorNodeConfig =
  baseUrl :: string
  topicId :: string
  pollInterval :: number
  maxRetries :: nat
  timeout :: number

record TopicMessage =
  tm_consensus_timestamp :: string
  tm_message :: string
  tm_payer_account_id :: string
  tm_running_hash :: string
  tm_running_hash_version :: int
  tm_sequence_number :: int
  tm_topic_id :: string
  tm_valid_start_timestamp :: string

text \<open>
  \<open>pm_message\<close> is \<open>None\<close> for the placeholder \<open>{} as HCSMessage\<close> that
  \<open>processMessages\<close> stores when decoding throws; its \<open>messageType\<close> is undefined.
\<close>

record ProcessedMessage =
  pm_sequenceNumber :: int
  pm_timestamp :: string
  pm_consensusTimestamp :: string
  pm_message :: "HCSMessage option"
  pm_isValid :: bool
  pm_validationErrors :: "string list option"
  pm_payerAccountId :: string

text \<open>
  A registered callback is known by a number. \<open>mc_pollTimeout\<close> is the delay of the
  pending timer, if one is set.
\<close>

record MirrorNodeClient =
  mc_config :: MirrorNodeConfig
  mc_lastSequenceNumber :: int
  mc_isPolling :: bool
  mc_pollTimeout :: "number option"
  mc_messageCallbacks :: "nat list"
  mc_errorCallbacks :: "nat list"
  mc_retryCount :: nat

text \<open>
  The request of \<open>buildUrl\<close>, field by field instead of as one string: the path
  parameters, \<open>limit\<close>, and the filter \<open>sequencenumber=gte:N\<close>, which the source
  appends only when \<open>fromSequenceNumber\<close> is truthy (present and not 0).
\<close>

record url =
  url_baseUrl :: string
  url_topicId :: string
  url_limit :: nat
  url_gte :: "int option"

definition buildUrl :: "MirrorNodeConfig \<Rightarrow> int option \<Rightarrow> nat \<Rightarrow> url" where
  "buildUrl config fromSequenceNumber limit =
     \<lparr>url_baseUrl = baseUrl config, url_topicId = topicId config, url_limit = limit,
      url_gte = (case fromSequenceNumber of
                   None \<Rightarrow> None
                 | Some n \<Rightarrow> if n \<noteq> 0 then Some n else None)\<rparr>"

text \<open>
  What one request returns: \<open>FetchFailed\<close> is every way \<open>getMessages\<close> throws (the
  fetch rejects or times out, or the response is not ok).
\<close>

datatype fetched = FetchFailed | FetchOk "TopicMessage list"

text \<open>
  \<open>processMessages\<close>. Base64 and \<open>JSON.parse\<close> are the parameter \<open>decode\<close> (\<open>Inl\<close>
  the message of the exception). \<open>verifyHCSMessage\<close> is imported from the
  verification pipeline, which does not export it; it is the parameter
  \<open>verifyHCSMessage\<close> (\<open>Inl\<close> the message of an exception it throws). Whatever
  happens, each raw message becomes one processed message with its sequence number.
\<close>

definition processMessage1 ::
  "(string \<Rightarrow> string + HCSMessage) \<Rightarrow> (HCSMessage \<Rightarrow> string + VerificationResult)
     \<Rightarrow> TopicMessage \<Rightarrow> ProcessedMessage" where
  "processMessage1 decode verifyHCSMessage rawMessage =
     (case (case decode (tm_message rawMessage) of
              Inl e \<Rightarrow> Inl e
            | Inr hcsMessage \<Rightarrow>
                (case verifyHCSMessage hcsMessage of
                   Inl e \<Rightarrow> Inl e
                 | Inr verification \<Rightarrow> Inr (hcsMessage, verification))) of
        Inr (hcsMessage, verification) \<Rightarrow>
          \<lparr>pm_sequenceNumber = tm_sequence_number rawMessage,
           pm_timestamp = tm_valid_start_timestamp rawMessage,
           pm_consensusTimestamp = tm_consensus_timestamp rawMessage,
           pm_message = Some hcsMessage,
           pm_isValid = vr_isValid verification,
           pm_validationErrors =
             (if vr_isValid verification then None else Some (vr_errors verification)),
           pm_payerAccountId = tm_payer_account_id rawMessage\<rparr>
      | Inl e \<Rightarrow>
          \<lparr>pm_sequenceNumber = tm_sequence_number rawMessage,
           pm_timestamp = tm_valid_start_timestamp rawMessage,
           pm_consensusTimestamp = tm_consensus_timestamp rawMessage,
           pm_message = None,
           pm_isValid = False,
           pm_validationErrors = Some [''Parse error: '' @ e],
           pm_payerAccountId = tm_payer_account_id rawMessage\<rparr>)"

definition processMessages ::
  "(string \<Rightarrow> string + HCSMessage) \<Rightarrow> (HCSMessage \<Rightarrow> string + VerificationResult)
     \<Rightarrow> TopicMessage list \<Rightarrow> ProcessedMessage list" where
  "processMessages decode verifyHCSMessage rawMessages =
     map (processMessage1 decode verifyHCSMessage) rawMessages"

text \<open>
  \<open>getMessages\<close>: the environment of one call is \<open>fetch\<close>, the answer of the
  indexing service to a request. \<open>None\<close> is the rethrown error.
\<close>

definition getMessages ::
  "(string \<Rightarrow> string + HCSMessage) \<Rightarrow> (HCSMessage \<Rightarrow> string + VerificationResult)
     \<Rightarrow> (url \<Rightarrow> fetched) \<Rightarrow> int option \<Rightarrow> nat \<Rightarrow> MirrorNodeClient
     \<Rightarrow> ProcessedMessage list option" where
  "getMessages decode verifyHCSMessage fetch fromSequenceNumber limit c =
     (case fetch (buildUrl (mc_config c) fromSequenceNumber limit) of
        FetchFailed \<Rightarrow> None
      | FetchOk rawMessages \<Rightarrow> Some (processMessages decode verifyHCSMessage rawMessages))"

definition stopPolling :: "MirrorNodeClient \<Rightarrow> MirrorNodeClient" where
  "stopPolling c = c\<lparr>mc_isPolling := False, mc_pollTimeout := None\<rparr>"

definition scheduleNextPoll :: "MirrorNodeClient \<Rightarrow> MirrorNodeClient" where
  "scheduleNextPoll c =
     (if \<not> mc_isPolling c then c
      else c\<lparr>mc_pollTimeout := Some (pollInterval (mc_config c))\<rparr>)"

definition handlePollError :: "MirrorNodeClient \<Rightarrow> MirrorNodeClient" where
  "handlePollError c =
     (let c1 = c\<lparr>mc_retryCount := mc_retryCount c + 1\<rparr>
      in if mc_retryCount c1 \<ge> maxRetries (mc_config c1) then stopPolling c1
         else c1\<lparr>mc_pollTimeout :=
                   Some (min (2 ^ mc_retryCount c1 * pollInterval (mc_config c1)) 60000)\<rparr>)"

text \<open>\<open>Math.max(...xs)\<close> on a list that is not empty.\<close>

fun mathMax :: "int list \<Rightarrow> int" where
  "mathMax [] = 0"
| "mathMax (x # xs) = fold max xs x"

text \<open>
  The two nested \<open>forEach\<close> of \<open>poll\<close>: what a list of processed messages hands
  to a list of callbacks, message by message.
\<close>

definition handedTo :: "nat list \<Rightarrow> ProcessedMessage list \<Rightarrow> (nat \<times> ProcessedMessage) list" where
  "handedTo callbacks messages =
     concat (map (\<lambda>message. map (\<lambda>callback. (callback, message)) callbacks) messages)"

text \<open>
  One cycle of \<open>poll\<close>. The second component is what this cycle hands to the
  subscribers, in the order of the calls: for each message, each registered callback.
  An exception of a callback is caught and changes nothing.
\<close>

definition poll ::
  "(string \<Rightarrow> string + HCSMessage) \<Rightarrow> (HCSMessage \<Rightarrow> string + VerificationResult)
     \<Rightarrow> (url \<Rightarrow> fetched) \<Rightarrow> MirrorNodeClient
     \<Rightarrow> MirrorNodeClient \<times> (nat \<times> ProcessedMessage) list" where
  "poll decode verifyHCSMessage fetch c =
     (if \<not> mc_isPolling c then (c, [])
      else
        (case getMessages decode verifyHCSMessage fetch
                (Some (mc_lastSequenceNumber c + 1)) 100 c of
           Some messages \<Rightarrow>
             (let c1 = (if length messages > 0
                        then c\<lparr>mc_lastSequenceNumber :=
                                 mathMax (map pm_sequenceNumber messages)\<rparr>
                        else c);
                  delivered = handedTo (mc_messageCallbacks c1) messages;
                  c2 = c1\<lparr>mc_retryCount := 0\<rparr>
              in (scheduleNextPoll c2, delivered))
         | None \<Rightarrow> (handlePollError c, [])))"

text \<open>
  \<open>startPolling\<close>: \<open>fromSequenceNumber || 0\<close>, then the first cycle.
\<close>

definition startPolling ::
  "(string \<Rightarrow> string + HCSMessage) \<Rightarrow> (HCSMessage \<Rightarrow> string + VerificationResult)
     \<Rightarrow> (url \<Rightarrow> fetched) \<Rightarrow> int option \<Rightarrow> MirrorNodeClient
     \<Rightarrow> MirrorNodeClient \<times> (nat \<times> ProcessedMessage) list" where
  "startPolling decode verifyHCSMessage fetch fromSequenceNumber c =
     (if mc_isPolling c then (c, [])
      else poll decode verifyHCSMessage fetch
             (c\<lparr>mc_isPolling := True,
                mc_lastSequenceNumber :=
                  (case fromSequenceNumber of None \<Rightarrow> 0 | Some n \<Rightarrow> if n \<noteq> 0 then n else 0),
                mc_retryCount := 0\<rparr>))"

text \<open>
  A run of poll cycles, one environment per cycle: the final client and everything
  handed to the subscribers, in order.
\<close>

fun pollRun ::
  "(string \<Rightarrow> string + HCSMessage) \<Rightarrow> (HCSMessage \<Rightarrow> string + VerificationResult)
     \<Rightarrow> (url \<Rightarrow> fetched) list \<Rightarrow> MirrorNodeClient
     \<Rightarrow> MirrorNodeClient \<times> (nat \<times> ProcessedMessage) list" where
  "pollRun decode verifyHCSMessage [] c = (c, [])"
| "pollRun decode verifyHCSMessage (fetch # fetches) c =
     (let (c1, d1) = poll decode verifyHCSMessage fetch c;
          (c2, d2) = pollRun decode verifyHCSMessage fetches c1
      in (c2, d1 @ d2))"

text \<open>
  The contract of the indexing service, as far as the client relies on it: a request
  that carries the filter \<open>gte:N\<close> is answered with sequence numbers \<open>\<ge> N\<close> only.
\<close>

definition answers :: "url \<Rightarrow> TopicMessage list \<Rightarrow> bool" where
  "answers u rawMessages =
     (case url_gte u of
        None \<Rightarrow> True
      | Some n \<Rightarrow> list_all (\<lambda>m. n \<le> tm_sequence_number m) rawMessages)"

text \<open>
  The raw messages a run fetches, cycle by cycle, when every cycle of it is
  successful (the fetch returns) and every answer keeps the contract; \<open>None\<close>
  otherwise.
\<close>

fun fetchedBy ::
  "(string \<Rightarrow> string + HCSMessage) \<Rightarrow> (HCSMessage \<Rightarrow> string + VerificationResult)
     \<Rightarrow> (url \<Rightarrow> fetched) list \<Rightarrow> MirrorNodeClient \<Rightarrow> TopicMessage list option" where
  "fetchedBy decode verifyHCSMessage [] c = Some []"
| "fetchedBy decode verifyHCSMessage (fetch # fetches) c =
     (case fetch (buildUrl (mc_config c) (Some (mc_lastSequenceNumber c + 1)) 100) of
        FetchFailed \<Rightarrow> None
      | FetchOk rawMessages \<Rightarrow>
          if answers (buildUrl (mc_config c) (Some (mc_lastSequenceNumber c + 1)) 100) rawMessages
          then (case fetchedBy decode verifyHCSMessage fetches
                       (fst (poll decode verifyHCSMessage fetch c)) of
                  None \<Rightarrow> None
                | Some rest \<Rightarrow> Some (rawMessages @ rest))
          else None)"

text \<open>The cursor before the first cycle of a run and after each cycle, in order of time.\<close>

fun cursorTrace ::
  "(string \<Rightarrow> string + HCSMessage) \<Rightarrow> (HCSMessage \<Rightarrow> string + VerificationResult)
     \<Rightarrow> (url \<Rightarrow> fetched) list \<Rightarrow> MirrorNodeClient \<Rightarrow> int list" where
  "cursorTrace decode verifyHCSMessage [] c = [mc_lastSequenceNumber c]"
| "cursorTrace decode verifyHCSMessage (fetch # fetches) c =
     mc_lastSequenceNumber c #
       cursorTrace decode verifyHCSMessage fetches (fst (poll decode verifyHCSMessage fetch c))"

section \<open>mirrorNodeClient.ts: the session manager\<close>

datatype sessionStatus = active | completed | cancelled | error

record WaterFlowEvent =
  fe_timestamp :: number
  fe_consensusTimestamp :: string
  fe_sequenceNumber :: int
  fe_pulseCount :: number
  fe_flowRate :: number
  fe_totalVolume :: number
  fe_valveStatus :: valveStatus
  fe_pressure :: number
  fe_temperature :: number
  fe_isValid :: bool

record WaterSession =
  ws_sessionId :: string
  ws_userId :: string
  ws_deviceId :: string
  ws_wellId :: string
  ws_startTime :: number
  ws_endTime :: "number option"
  ws_maxVolume :: number
  ws_pricePerLiter :: number
  ws_totalVolume :: number
  ws_totalCost :: number
  ws_status :: sessionStatus
  ws_lastActivity :: number
  ws_flowEvents :: "WaterFlowEvent list"
  ws_paymentTxHash :: "string option"
  ws_revenueSplitTxHash :: "string option"
  ws_errorMessage :: "string option"

text \<open>
  \<open>dv_status\<close> has the four values of the message's \<open>status\<close>: the source assigns
  \<open>statusMessage.status\<close> to it unchanged.
\<close>

record DeviceStatus =
  dv_deviceId :: string
  dv_wellId :: string
  dv_lastSeen :: number
  dv_status :: deviceState
  dv_batteryLevel :: number
  dv_signalStrength :: number
  dv_lastMaintenance :: number
  dv_errorCode :: "string option"
  dv_diagnostics :: "diagnostics option"

record SessionManagerConfig =
  cfg_sessionTimeout :: number
  cfg_maxSessionDuration :: number
  cfg_volumeTolerancePercent :: number
  cfg_cleanupInterval :: number

text \<open>
  The two registries are JavaScript \<open>Map\<close>s, which iterate in insertion order:
  association lists, written with \<open>AList.update\<close> (\<open>set\<close>: in place when the key
  is there, at the end when it is not) and \<open>AList.delete\<close>, read with \<open>map_of\<close>.
  A session object is shared between the registry and the code that holds it, so
  each mutation of a session found under a key is a write under that key.
  Subscribers (\<open>emitSessionEvent\<close>, \<open>deviceCallbacks\<close>) only observe; their
  exceptions are caught, and they are left out of the state.
\<close>

record SessionManager =
  sm_config :: SessionManagerConfig
  sm_activeSessions :: "(string \<times> WaterSession) list"
  sm_deviceStatuses :: "(string \<times> DeviceStatus) list"

definition newSessionManager :: "SessionManagerConfig \<Rightarrow> SessionManager" where
  "newSessionManager config =
     \<lparr>sm_config = config, sm_activeSessions = [], sm_deviceStatuses = []\<rparr>"

definition defaultSessionManagerConfig :: SessionManagerConfig where
  "defaultSessionManagerConfig =
     \<lparr>cfg_sessionTimeout = 5 * 60 * 1000, cfg_maxSessionDuration = 30 * 60 * 1000,
      cfg_volumeTolerancePercent = 5, cfg_cleanupInterval = 60 * 1000\<rparr>"

definition getSession :: "string \<Rightarrow> SessionManager \<Rightarrow> WaterSession option" where
  "getSession sessionId sm = map_of (sm_activeSessions sm) sessionId"

definition getActiveSessionForDevice :: "string \<Rightarrow> SessionManager \<Rightarrow> WaterSession option" where
  "getActiveSessionForDevice d sm =
     find (\<lambda>session. ws_deviceId session = d \<and> ws_status session = active)
       (map snd (sm_activeSessions sm))"

record sessionData =
  sd_sessionId :: string
  sd_userId :: string
  sd_deviceId :: string
  sd_wellId :: string
  sd_maxVolume :: number
  sd_pricePerLiter :: number

text \<open>The two errors \<open>createSession\<close> throws, with the ids their messages carry.\<close>

datatype sessionError = DeviceNotOnline string | DeviceHasActiveSession string string

text \<open>
  \<open>createSession\<close> returns the outcome and the manager after the call, so that a
  throw is seen to leave the manager as it was.
\<close>

definition createSession ::
  "number \<Rightarrow> sessionData \<Rightarrow> SessionManager \<Rightarrow> (sessionError + WaterSession) \<times> SessionManager" where
  "createSession now d sm =
     (case map_of (sm_deviceStatuses sm) (sd_deviceId d) of
        None \<Rightarrow> (Inl (DeviceNotOnline (sd_deviceId d)), sm)
      | Some deviceStatus \<Rightarrow>
          if dv_status deviceStatus \<noteq> ONLINE then (Inl (DeviceNotOnline (sd_deviceId d)), sm)
          else
            (case getActiveSessionForDevice (sd_deviceId d) sm of
               Some existingSession \<Rightarrow>
                 (Inl (DeviceHasActiveSession (sd_deviceId d) (ws_sessionId existingSession)), sm)
             | None \<Rightarrow>
                 (let session =
                        \<lparr>ws_sessionId = sd_sessionId d, ws_userId = sd_userId d,
                         ws_deviceId = sd_deviceId d, ws_wellId = sd_wellId d,
                         ws_startTime = now, ws_endTime = None,
                         ws_maxVolume = sd_maxVolume d, ws_pricePerLiter = sd_pricePerLiter d,
                         ws_totalVolume = 0, ws_totalCost = 0, ws_status = active,
                         ws_lastActivity = now, ws_flowEvents = [],
                         ws_paymentTxHash = None, ws_revenueSplitTxHash = None,
                         ws_errorMessage = None\<rparr>
                  in (Inr session,
                      sm\<lparr>sm_activeSessions :=
                           AList.update (ws_sessionId session) session (sm_activeSessions sm)\<rparr>))))"

definition completeSession ::
  "number \<Rightarrow> string \<Rightarrow> string option \<Rightarrow> SessionManager \<Rightarrow> bool \<times> SessionManager" where
  "completeSession now sessionId reason sm =
     (case map_of (sm_activeSessions sm) sessionId of
        None \<Rightarrow> (False, sm)
      | Some session \<Rightarrow>
          if ws_status session \<noteq> active then (False, sm)
          else (True,
                sm\<lparr>sm_activeSessions :=
                     AList.update sessionId
                       (session\<lparr>ws_status := completed, ws_endTime := Some now\<rparr>)
                       (sm_activeSessions sm)\<rparr>))"

definition cancelSession ::
  "number \<Rightarrow> string \<Rightarrow> string option \<Rightarrow> SessionManager \<Rightarrow> bool \<times> SessionManager" where
  "cancelSession now sessionId reason sm =
     (case map_of (sm_activeSessions sm) sessionId of
        None \<Rightarrow> (False, sm)
      | Some session \<Rightarrow>
          if ws_status session \<noteq> active then (False, sm)
          else (True,
                sm\<lparr>sm_activeSessions :=
                     AList.update sessionId
                       (session\<lparr>ws_status := cancelled, ws_endTime := Some now,
                                ws_errorMessage := reason\<rparr>)
                       (sm_activeSessions sm)\<rparr>))"

definition errorSession ::
  "number \<Rightarrow> string \<Rightarrow> string \<Rightarrow> SessionManager \<Rightarrow> bool \<times> SessionManager" where
  "errorSession now sessionId errorMessage sm =
     (case map_of (sm_activeSessions sm) sessionId of
        None \<Rightarrow> (False, sm)
      | Some session \<Rightarrow>
          (True,
           sm\<lparr>sm_activeSessions :=
                AList.update sessionId
                  (session\<lparr>ws_status := error, ws_endTime := Some now,
                           ws_errorMessage := Some errorMessage\<rparr>)
                  (sm_activeSessions sm)\<rparr>))"

text \<open>The flow event that \<open>processWaterFlowMessage\<close> builds from a message.\<close>

definition flowEventOf :: "ProcessedMessage \<Rightarrow> WaterFlowMessage \<Rightarrow> WaterFlowEvent" where
  "flowEventOf processedMessage flowMessage =
     \<lparr>fe_timestamp = wf_timestamp flowMessage,
      fe_consensusTimestamp = pm_consensusTimestamp processedMessage,
      fe_sequenceNumber = pm_sequenceNumber processedMessage,
      fe_pulseCount = wf_pulseCount flowMessage,
      fe_flowRate = wf_flowRate flowMessage,
      fe_totalVolume = wf_totalVolume flowMessage,
      fe_valveStatus = wf_valveStatus flowMessage,
      fe_pressure = wf_pressure flowMessage,
      fe_temperature = wf_temperature flowMessage,
      fe_isValid = True\<rparr>"

definition processWaterFlowMessage ::
  "number \<Rightarrow> ProcessedMessage \<Rightarrow> WaterFlowMessage \<Rightarrow> SessionManager \<Rightarrow> SessionManager" where
  "processWaterFlowMessage now processedMessage flowMessage sm =
     (case map_of (sm_activeSessions sm) (wf_sessionId flowMessage) of
        None \<Rightarrow> sm
      | Some session \<Rightarrow>
          if ws_deviceId session \<noteq> wf_deviceId flowMessage \<or>
             ws_userId session \<noteq> wf_userId flowMessage
          then sm
          else
            (let flowEvent = flowEventOf processedMessage flowMessage;
                 session1 =
                   session\<lparr>ws_flowEvents := ws_flowEvents session @ [flowEvent],
                           ws_totalVolume := wf_totalVolume flowMessage,
                           ws_totalCost := wf_totalVolume flowMessage * ws_pricePerLiter session,
                           ws_lastActivity := now\<rparr>;
                 sm1 = sm\<lparr>sm_activeSessions :=
                             AList.update (wf_sessionId flowMessage) session1
                               (sm_activeSessions sm)\<rparr>
             in if wf_valveStatus flowMessage = CLOSED \<or>
                   ws_totalVolume session1 \<ge> ws_maxVolume session1
                then snd (completeSession now (ws_sessionId session1)
                            (Some ''Volume limit reached or valve closed'') sm1)
                else sm1))"

definition processDeviceStatusMessage ::
  "number \<Rightarrow> ProcessedMessage \<Rightarrow> DeviceStatusMessage \<Rightarrow> SessionManager \<Rightarrow> SessionManager" where
  "processDeviceStatusMessage now processedMessage statusMessage sm =
     (let deviceStatus =
            \<lparr>dv_deviceId = ds_deviceId statusMessage, dv_wellId = ds_wellId statusMessage,
             dv_lastSeen = ds_timestamp statusMessage, dv_status = ds_status statusMessage,
             dv_batteryLevel = ds_batteryLevel statusMessage,
             dv_signalStrength = ds_signalStrength statusMessage,
             dv_lastMaintenance = ds_lastMaintenance statusMessage,
             dv_errorCode = ds_errorCode statusMessage,
             dv_diagnostics = Some (ds_diagnostics statusMessage)\<rparr>;
          sm1 = sm\<lparr>sm_deviceStatuses :=
                      AList.update (ds_deviceId statusMessage) deviceStatus
                        (sm_deviceStatuses sm)\<rparr>
      in if ds_status statusMessage = OFFLINE
         then (case getActiveSessionForDevice (ds_deviceId statusMessage) sm1 of
                 Some activeSession \<Rightarrow>
                   snd (cancelSession now (ws_sessionId activeSession)
                          (Some ''Device went offline'') sm1)
               | None \<Rightarrow> sm1)
         else sm1)"

definition processMessage ::
  "number \<Rightarrow> ProcessedMessage \<Rightarrow> SessionManager \<Rightarrow> SessionManager" where
  "processMessage now processedMessage sm =
     (if \<not> pm_isValid processedMessage then sm
      else
        (case pm_message processedMessage of
           Some (WATER_FLOW message) \<Rightarrow> processWaterFlowMessage now processedMessage message sm
         | Some (DEVICE_STATUS message) \<Rightarrow>
             processDeviceStatusMessage now processedMessage message sm
         | None \<Rightarrow> sm))"

text \<open>
  \<open>cleanupOldSessions\<close>. The loop visits the keys of the registry in order; one
  visit is \<open>cleanupVisit\<close>, which carries the manager and \<open>sessionsToRemove\<close>. The
  second test of the loop body reads the session after \<open>cancelSession\<close> or
  \<open>completeSession\<close> has written to it, and \<open>session.endTime\<close> is truthy when it
  is set and not 0.
\<close>

definition cleanupVisit ::
  "number \<Rightarrow> string \<Rightarrow> SessionManager \<times> string list \<Rightarrow> SessionManager \<times> string list" where
  "cleanupVisit now sessionId acc =
     (case map_of (sm_activeSessions (fst acc)) sessionId of
        None \<Rightarrow> acc
      | Some session \<Rightarrow>
          (let sm = fst acc;
               sm1 =
                 (if ws_status session = active
                  then (if now - ws_lastActivity session > cfg_sessionTimeout (sm_config sm)
                        then snd (cancelSession now sessionId
                                    (Some ''Session timeout due to inactivity'') sm)
                        else if now - ws_startTime session > cfg_maxSessionDuration (sm_config sm)
                        then snd (completeSession now sessionId
                                    (Some ''Maximum session duration reached'') sm)
                        else sm)
                  else sm)
           in (case map_of (sm_activeSessions sm1) sessionId of
                 None \<Rightarrow> (sm1, snd acc)
               | Some session1 \<Rightarrow>
                   if ws_status session1 \<noteq> active \<and>
                      (case ws_endTime session1 of
                         None \<Rightarrow> False
                       | Some endTime \<Rightarrow> endTime \<noteq> 0 \<and> now - endTime > 24 * 60 * 60 * 1000)
                   then (sm1, snd acc @ [sessionId])
                   else (sm1, snd acc))))"

definition cleanupOldSessions :: "number \<Rightarrow> SessionManager \<Rightarrow> SessionManager" where
  "cleanupOldSessions now sm =
     (let acc = fold (cleanupVisit now) (map fst (sm_activeSessions sm)) (sm, [])
      in (fst acc)\<lparr>sm_activeSessions := fold AList.delete (snd acc) (sm_activeSessions (fst acc))\<rparr>)"

record statistics =
  st_totalSessions :: nat
  st_activeSessions :: nat
  st_completedSessions :: nat
  st_cancelledSessions :: nat
  st_errorSessions :: nat
  st_totalVolume :: number
  st_totalRevenue :: number
  st_onlineDevices :: nat
  st_totalDevices :: nat

definition getStatistics :: "SessionManager \<Rightarrow> statistics" where
  "getStatistics sm =
     (let sessions = map snd (sm_activeSessions sm);
          devices = map snd (sm_deviceStatuses sm)
      in \<lparr>st_totalSessions = length sessions,
          st_activeSessions = length (filter (\<lambda>s. ws_status s = active) sessions),
          st_completedSessions = length (filter (\<lambda>s. ws_status s = completed) sessions),
          st_cancelledSessions = length (filter (\<lambda>s. ws_status s = cancelled) sessions),
          st_errorSessions = length (filter (\<lambda>s. ws_status s = error) sessions),
          st_totalVolume = foldl (\<lambda>sum s. sum + ws_totalVolume s) 0 sessions,
          st_totalRevenue = foldl (\<lambda>sum s. sum + ws_totalCost s) 0 sessions,
          st_onlineDevices = length (filter (\<lambda>d. dv_status d = ONLINE) devices),
          st_totalDevices = length devices\<rparr>)"

text \<open>
  The operations that change a session manager, each with the clock value it reads,
  and a run of them from a new manager.
\<close>

datatype operation =
    CreateSession number sessionData
  | ProcessMessage number ProcessedMessage
  | CompleteSession number string "string option"
  | CancelSession number string "string option"
  | ErrorSession number string string
  | CleanupOldSessions number

fun perform :: "operation \<Rightarrow> SessionManager \<Rightarrow> SessionManager" where
  "perform (CreateSession now d) sm = snd (createSession now d sm)"
| "perform (ProcessMessage now processedMessage) sm = processMessage now processedMessage sm"
| "perform (CompleteSession now sessionId reason) sm = snd (completeSession now sessionId reason sm)"
| "perform (CancelSession now sessionId reason) sm = snd (cancelSession now sessionId reason sm)"
| "perform (ErrorSession now sessionId errorMessage) sm =
     snd (errorSession now sessionId errorMessage sm)"
| "perform (CleanupOldSessions now) sm = cleanupOldSessions now sm"

definition run :: "SessionManagerConfig \<Rightarrow> operation list \<Rightarrow> SessionManager" where
  "run config ops = fold perform ops (newSessionManager config)"

text \<open>The sessions of the registry that are active on device \<open>d\<close>.\<close>

definition activeOn :: "string \<Rightarrow> SessionManager \<Rightarrow> WaterSession list" where
  "activeOn d sm =
     filter (\<lambda>session. ws_deviceId session = d \<and> ws_status session = active)
       (map snd (sm_activeSessions sm))"

text \<open>The device has a liveness record, and the record says \<open>ONLINE\<close>.\<close>

definition markedOnline :: "string \<Rightarrow> SessionManager \<Rightarrow> bool" where
  "markedOnline d sm =
     (case map_of (sm_deviceStatuses sm) d of
        None \<Rightarrow> False
      | Some deviceStatus \<Rightarrow> dv_status deviceStatus = ONLINE)"

text \<open>
  What one visit of the sweep makes of the session it visits: the two timeout
  tests of \<open>cleanupVisit\<close>, with the writes of \<open>cancelSession\<close> and
  \<open>completeSession\<close> applied to the session itself.
\<close>

definition sweptSession :: "number \<Rightarrow> SessionManagerConfig \<Rightarrow> WaterSession \<Rightarrow> WaterSession" where
  "sweptSession now config session =
     (if ws_status session = active
      then (if now - ws_lastActivity session > cfg_sessionTimeout config
            then session\<lparr>ws_status := cancelled, ws_endTime := Some now,
                         ws_errorMessage := Some ''Session timeout due to inactivity''\<rparr>
            else if now - ws_startTime session > cfg_maxSessionDuration config
            then session\<lparr>ws_status := completed, ws_endTime := Some now\<rparr>
            else session)
      else session)"

text \<open>
  The test of the loop body that queues a session for removal: it is terminal and
  its end lies more than 24 hours back.
\<close>

definition removable :: "number \<Rightarrow> WaterSession \<Rightarrow> bool" where
  "removable now s = (ws_status s \<noteq> active \<and>
     (case ws_endTime s of None \<Rightarrow> False
      | Some endTime \<Rightarrow> endTime \<noteq> 0 \<and> now - endTime > 24 * 60 * 60 * 1000))"

text \<open>
  Two states of the sweep's loop, seen from the key \<open>k\<close> of a session \<open>s\<close>: the
  loop has not reached \<open>k\<close> yet, or it has; in neither is \<open>k\<close> queued for removal.
\<close>

definition visited :: "number \<Rightarrow> SessionManagerConfig \<Rightarrow> string \<Rightarrow> WaterSession
    \<Rightarrow> SessionManager \<times> string list \<Rightarrow> bool" where
  "visited now config k s acc =
     (sm_config (fst acc) = config \<and> k \<notin> set (snd acc) \<and>
      map_of (sm_activeSessions (fst acc)) k = Some (sweptSession now config s))"

definition pending :: "number \<Rightarrow> SessionManagerConfig \<Rightarrow> string \<Rightarrow> WaterSession
    \<Rightarrow> SessionManager \<times> string list \<Rightarrow> bool" where
  "pending now config k s acc =
     (sm_config (fst acc) = config \<and> k \<notin> set (snd acc) \<and>
      map_of (sm_activeSessions (fst acc)) k = Some s)"

section \<open>Concrete devices, events and runs\<close>

text \<open>
  The data of scenario A of the specification: device \<open>D1\<close> of facility \<open>F1\<close>,
  session \<open>S1\<close> of user \<open>U1\<close> with maxVolume 5 and price 1/10, and flow events of
  that session.
\<close>

definition D1 :: DeviceRegistry where
  "D1 = \<lparr>dr_deviceId = ''D1'', dr_wellId = ''F1'', dr_publicKey = ''ab'', dr_isActive = True,
         dr_lastSeen = 0, dr_owner = ''0.0.1''\<rparr>"

definition pipeline0 :: pipeline where
  "pipeline0 = registerDevice D1 \<lparr>vp_deviceRegistry = Map.empty, vp_activeSessions = Map.empty\<rparr>"

definition flow :: "number \<Rightarrow> valveStatus \<Rightarrow> WaterFlowMessage" where
  "flow v valve =
     \<lparr>wf_timestamp = 1000, wf_deviceId = ''D1'', wf_wellId = ''F1'', wf_signature = ''00'',
      wf_sessionId = ''S1'', wf_userId = ''U1'', wf_pulseCount = 10, wf_flowRate = 2,
      wf_totalVolume = v, wf_valveStatus = valve, wf_pressure = 50, wf_temperature = 20\<rparr>"

text \<open>
  The binding of the import as the code ships: @noble/ed25519 exports \<open>verify\<close>,
  \<open>sign\<close>, \<open>getPublicKey\<close> and \<open>utils\<close>, and so does the mock of
  tests/setup/jest.setup.js; neither has an export \<open>ed25519\<close>.
\<close>

definition nobleEd25519 :: "(string \<Rightarrow> HCSMessage \<Rightarrow> string \<Rightarrow> bool) option" where
  "nobleEd25519 = None"

definition flows321 :: "(number \<times> WaterFlowMessage) list" where
  "flows321 = [(1000, flow 3 OPEN), (1000, flow 1 OPEN), (1000, flow 2 OPEN)]"


definition statusOf :: "deviceState \<Rightarrow> DeviceStatusMessage" where
  "statusOf st =
     \<lparr>ds_timestamp = 1000, ds_deviceId = ''D1'', ds_wellId = ''F1'', ds_signature = ''00'',
      ds_status = st, ds_batteryLevel = 80, ds_signalStrength = - 60, ds_lastMaintenance = 0,
      ds_errorCode = None,
      ds_diagnostics = \<lparr>pumpStatus = OK, sensorStatus = OK, networkStatus = OK,
                         memoryUsage = 10, uptime = 5\<rparr>\<rparr>"

definition pmStatus :: "deviceState \<Rightarrow> ProcessedMessage" where
  "pmStatus st =
     \<lparr>pm_sequenceNumber = 1, pm_timestamp = ''t'', pm_consensusTimestamp = ''c'',
      pm_message = Some (DEVICE_STATUS (statusOf st)), pm_isValid = True,
      pm_validationErrors = None, pm_payerAccountId = ''0.0.2''\<rparr>"

definition pmFlow :: "int \<Rightarrow> number \<Rightarrow> valveStatus \<Rightarrow> ProcessedMessage" where
  "pmFlow n v valve =
     \<lparr>pm_sequenceNumber = n, pm_timestamp = ''t'', pm_consensusTimestamp = ''c'',
      pm_message = Some (WATER_FLOW (flow v valve)), pm_isValid = True,
      pm_validationErrors = None, pm_payerAccountId = ''0.0.2''\<rparr>"

definition S1 :: sessionData where
  "S1 = \<lparr>sd_sessionId = ''S1'', sd_userId = ''U1'', sd_deviceId = ''D1'', sd_wellId = ''F1'',
         sd_maxVolume = 5, sd_pricePerLiter = 1 / 10\<rparr>"

definition S2 :: sessionData where
  "S2 = \<lparr>sd_sessionId = ''S2'', sd_userId = ''U2'', sd_deviceId = ''D1'', sd_wellId = ''F1'',
         sd_maxVolume = 8, sd_pricePerLiter = 1 / 10\<rparr>"

text \<open>Device \<open>D1\<close> reports online, and session \<open>S1\<close> is created on it.\<close>

definition opened :: "operation list" where
  "opened = [ProcessMessage 100 (pmStatus ONLINE), CreateSession 200 S1]"

definition scenarioA :: "operation list" where
  "scenarioA =
     opened @ [ProcessMessage 300 (pmFlow 2 1 OPEN), ProcessMessage 400 (pmFlow 3 3 OPEN),
               ProcessMessage 500 (pmFlow 4 5 CLOSED)]"

text \<open>The session that \<open>createSession 200 S1\<close> registers.\<close>

definition sessionS1 :: WaterSession where
  "sessionS1 =
     \<lparr>ws_sessionId = ''S1'', ws_userId = ''U1'', ws_deviceId = ''D1'', ws_wellId = ''F1'',
      ws_startTime = 200, ws_endTime = None, ws_maxVolume = 5, ws_pricePerLiter = 1 / 10,
      ws_totalVolume = 0, ws_totalCost = 0, ws_status = active, ws_lastActivity = 200,
      ws_flowEvents = [], ws_paymentTxHash = None, ws_revenueSplitTxHash = None,
      ws_errorMessage = None\<rparr>"

text \<open>Session \<open>S1\<close> cancelled by the caller before any flow event.\<close>

definition cancelledS1 :: "operation list" where
  "cancelledS1 = opened @ [CancelSession 250 ''S1'' None]"

text \<open>Device \<open>D1\<close> goes offline after one flow event of volume 1.\<close>

definition offlineMidway :: "operation list" where
  "offlineMidway =
     opened @ [ProcessMessage 300 (pmFlow 2 1 OPEN), ProcessMessage 400 (pmStatus OFFLINE)]"

text \<open>
  Session \<open>S1\<close>, created at 200, with one flow event at 1900000, and the session
  object the registry then holds.
\<close>

definition agedS1 :: "operation list" where
  "agedS1 = opened @ [ProcessMessage 1900000 (pmFlow 2 1 OPEN)]"

definition agedSession :: WaterSession where
  "agedSession =
     sessionS1\<lparr>ws_flowEvents := [flowEventOf (pmFlow 2 1 OPEN) (flow 1 OPEN)],
               ws_totalVolume := 1, ws_totalCost := 1 / 10, ws_lastActivity := 1900000\<rparr>"

text \<open>
  An ingestion client that is polling from cursor 0 with two callbacks, a topic of
  three messages of which the second does not decode, and an indexing service that
  answers a request from a log.
\<close>

definition client0 :: MirrorNodeClient where
  "client0 =
     \<lparr>mc_config = \<lparr>baseUrl = ''https://testnet.mirrornode.hedera.com'', topicId = ''0.0.123456'',
                    pollInterval = 5000, maxRetries = 5, timeout = 10000\<rparr>,
      mc_lastSequenceNumber = 0, mc_isPolling = True, mc_pollTimeout = None,
      mc_messageCallbacks = [0, 1], mc_errorCallbacks = [], mc_retryCount = 0\<rparr>"

definition topicMessage :: "int \<Rightarrow> string \<Rightarrow> TopicMessage" where
  "topicMessage n payload =
     \<lparr>tm_consensus_timestamp = ''c'', tm_message = payload, tm_payer_account_id = ''0.0.2'',
      tm_running_hash = ''h'', tm_running_hash_version = 3, tm_sequence_number = n,
      tm_topic_id = ''0.0.123456'', tm_valid_start_timestamp = ''t''\<rparr>"

definition decode0 :: "string \<Rightarrow> string + HCSMessage" where
  "decode0 payload =
     (if payload = ''flow'' then Inr (WATER_FLOW (flow 1 OPEN)) else Inl ''Unexpected token'')"

definition verify0 :: "HCSMessage \<Rightarrow> string + VerificationResult" where
  "verify0 message =
     Inr \<lparr>vr_isValid = True, vr_errors = [], vr_warnings = [], vr_deviceInfo = None\<rparr>"

definition serve :: "TopicMessage list \<Rightarrow> url \<Rightarrow> fetched" where
  "serve topic u =
     FetchOk (take (url_limit u)
       (filter (\<lambda>m. case url_gte u of None \<Rightarrow> True | Some n \<Rightarrow> n \<le> tm_sequence_number m)
          topic))"

definition threeCycles :: "(url \<Rightarrow> fetched) list" where
  "threeCycles =
     [serve [topicMessage 1 ''flow'', topicMessage 2 ''junk''],
      serve [topicMessage 1 ''flow'', topicMessage 2 ''junk''],
      serve [topicMessage 1 ''flow'', topicMessage 2 ''junk'', topicMessage 3 ''flow'']]"

text \<open>The pipeline after it has verified a first flow event of volume 3.\<close>

definition tracked3 :: pipeline where
  "tracked3 =
     snd (verifyMessage (verifySignature nobleEd25519) 1000 (WATER_FLOW (flow 3 OPEN)) pipeline0)"

text \<open>
  A flow message as an untyped value, with its cumulative volume left open, and a
  status message with the properties given for \<open>errorCode\<close>, if any.
\<close>

definition flowObject :: "jsnumber \<Rightarrow> jsvalue" where
  "flowObject volume =
     VObject
       [(''timestamp'', VNumber (Finite 1000)), (''deviceId'', VString ''D1''),
        (''wellId'', VString ''F1''), (''signature'', VString ''00''),
        (''messageType'', VString ''WATER_FLOW''), (''sessionId'', VString ''S1''),
        (''userId'', VString ''U1''), (''pulseCount'', VNumber (Finite 10)),
        (''flowRate'', VNumber (Finite 2)), (''totalVolume'', VNumber volume),
        (''valveStatus'', VString ''OPEN''), (''pressure'', VNumber (Finite 50)),
        (''temperature'', VNumber (Finite 20))]"

definition statusObject :: "(string \<times> jsvalue) list \<Rightarrow> jsvalue" where
  "statusObject errorCode =
     VObject
       ([(''timestamp'', VNumber (Finite 1000)), (''deviceId'', VString ''D1''),
         (''wellId'', VString ''F1''), (''signature'', VString ''00''),
         (''messageType'', VString ''DEVICE_STATUS''), (''status'', VString ''ONLINE''),
         (''batteryLevel'', VNumber (Finite 80)), (''signalStrength'', VNumber (Finite (- 60))),
         (''lastMaintenance'', VNumber (Finite 0))] @ errorCode @
        [(''diagnostics'',
          VObject [(''pumpStatus'', VString ''OK''), (''sensorStatus'', VString ''OK''),
                   (''networkStatus'', VString ''OK''), (''memoryUsage'', VNumber (Finite 10)),
                   (''uptime'', VNumber (Finite 5))])])"

section \<open>Evaluation on concrete data\<close>

text \<open>
  The defining equations that evaluate the pipeline, the session manager, the sweep
  and the ingestion client on the concrete data above.
\<close>

lemmas pipeline_eval =
  pipeline0_def registerDevice_def D1_def flow_def verifySignature_def nobleEd25519_def
  verifyMessage_def getDevice_def validateWaterFlowMessage_def sessionKey_def
  validateTimestamp_def maxTimestampDrift_def maxSessionDuration_def statusWarnings_def Let_def

lemmas session_eval =
  run_def newSessionManager_def defaultSessionManagerConfig_def opened_def scenarioA_def
  pmStatus_def pmFlow_def statusOf_def flow_def S1_def S2_def
  processMessage_def processDeviceStatusMessage_def processWaterFlowMessage_def flowEventOf_def
  createSession_def completeSession_def cancelSession_def errorSession_def
  getActiveSessionForDevice_def getSession_def activeOn_def Let_def

lemmas sweep_eval =
  cleanupOldSessions_def cleanupVisit_def agedS1_def

lemmas format_eval =
  validateHCSMessage_def validateWaterFlowMessage_format_def validateDeviceStatusMessage_format_def
  serializeMessage_def deserializeMessage_def readable_def property_def typeof_def truthy_def
  flowObject_def statusObject_def

lemmas client_eval =
  client0_def topicMessage_def decode0_def verify0_def serve_def threeCycles_def
  poll_def getMessages_def buildUrl_def processMessages_def processMessage1_def
  scheduleNextPoll_def handedTo_def answers_def Let_def

section \<open>The verification pipeline tracks every flow event of a registered device\<close>

lemma validateWaterFlowMessage_tracks:
  "snd (validateWaterFlowMessage m tracks) =
     tracks(sessionKey m \<mapsto>
       (case tracks (sessionKey m) of
          None \<Rightarrow> \<lparr>tr_startTime = wf_timestamp m, tr_totalVolume = wf_totalVolume m\<rparr>
        | Some ex \<Rightarrow> ex\<lparr>tr_totalVolume := wf_totalVolume m\<rparr>))"
  by (simp add: validateWaterFlowMessage_def Let_def split: option.splits)

lemma verifyMessage_flow_tracks:
  "vp_deviceRegistry p (wf_deviceId m) = Some device \<Longrightarrow>
   vp_activeSessions (snd (verifyMessage sg now (WATER_FLOW m) p)) =
     (vp_activeSessions p)(sessionKey m \<mapsto>
       (case vp_activeSessions p (sessionKey m) of
          None \<Rightarrow> \<lparr>tr_startTime = wf_timestamp m, tr_totalVolume = wf_totalVolume m\<rparr>
        | Some ex \<Rightarrow> ex\<lparr>tr_totalVolume := wf_totalVolume m\<rparr>))"
  using validateWaterFlowMessage_tracks [of m "vp_activeSessions p"]
  by (simp add: verifyMessage_def getDevice_def Let_def split_beta)

lemma verifyMessage_registry_dom:
  "vp_deviceRegistry p d \<noteq> None \<Longrightarrow>
   vp_deviceRegistry (snd (verifyMessage sg now msg p)) d \<noteq> None"
  by (simp add: verifyMessage_def getDevice_def Let_def split_beta split: option.splits)

lemma validateWaterFlowMessage_no_decrease:
  "tracks (sessionKey m) = Some ex \<Longrightarrow> fst (validateWaterFlowMessage m tracks) = [] \<Longrightarrow>
   tr_totalVolume ex \<le> wf_totalVolume m"
  by (simp add: validateWaterFlowMessage_def Let_def split: if_splits)

lemma verifyMessage_valid_no_decrease:
  "vp_activeSessions p (sessionKey m) = Some ex \<Longrightarrow>
   vr_isValid (fst (verifyMessage sg now (WATER_FLOW m) p)) \<Longrightarrow>
   tr_totalVolume ex \<le> wf_totalVolume m"
  using validateWaterFlowMessage_no_decrease [of "vp_activeSessions p" m ex]
  by (simp add: verifyMessage_def getDevice_def Let_def split_beta split: option.splits)

text \<open>
  Claim C9. For a flow event whose device id is registered, \<open>verifyMessage\<close> writes
  the tracking entry of the event's key whatever the verdict: an absent entry is
  opened with the event's timestamp and volume, a present one has its volume
  overwritten with the event's. Nothing is assumed about the verdict, so the
  statement covers an inactive device, a facility mismatch, a stale timestamp, a
  failed signature and a decreasing volume.
\<close>

theorem verifyMessage_tracks_rejected_events:
  assumes "getDevice (wf_deviceId m) p = Some device"
  shows "vp_activeSessions (snd (verifyMessage check now (WATER_FLOW m) p)) =
     (vp_activeSessions p)(sessionKey m \<mapsto>
       (case vp_activeSessions p (sessionKey m) of
          None \<Rightarrow> \<lparr>tr_startTime = wf_timestamp m, tr_totalVolume = wf_totalVolume m\<rparr>
        | Some ex \<Rightarrow> ex\<lparr>tr_totalVolume := wf_totalVolume m\<rparr>))"
  using assms by (simp add: getDevice_def verifyMessage_flow_tracks)

theorem verifyMessage_tracks_rejected_events_witness:
  "\<not> vr_isValid
       (fst (verifyMessage (verifySignature nobleEd25519) 1000 (WATER_FLOW (flow 1 OPEN)) tracked3)) \<and>
   vp_activeSessions tracked3 ''D1-S1'' = Some \<lparr>tr_startTime = 1000, tr_totalVolume = 3\<rparr> \<and>
   vp_activeSessions
       (snd (verifyMessage (verifySignature nobleEd25519) 1000 (WATER_FLOW (flow 1 OPEN)) tracked3))
     ''D1-S1'' = Some \<lparr>tr_startTime = 1000, tr_totalVolume = 1\<rparr>"
proof -
  have h: "getDevice (wf_deviceId (flow 1 OPEN)) tracked3 = Some (D1\<lparr>dr_lastSeen := 1000\<rparr>)"
    by (simp add: tracked3_def pipeline_eval)
  have t: "vp_activeSessions tracked3 ''D1-S1'' = Some \<lparr>tr_startTime = 1000, tr_totalVolume = 3\<rparr>"
    by (simp add: tracked3_def pipeline_eval)
  have r: "\<not> vr_isValid
      (fst (verifyMessage (verifySignature nobleEd25519) 1000 (WATER_FLOW (flow 1 OPEN)) tracked3))"
    using t by (simp add: pipeline_eval tracked3_def)
  show ?thesis
    using verifyMessage_tracks_rejected_events [OF h, of "verifySignature nobleEd25519" 1000] t r
    by (simp add: sessionKey_def flow_def)
qed

section \<open>Monotonicity of accepted volumes\<close>

text \<open>
  What the volume test of \<open>validateWaterFlowMessage\<close> gives, for any signature
  check: in a run of flow events of one (device, session) pair on a registered
  device, a valid event is not below the event verified just before it.
\<close>

lemma valid_flow_not_below_previous_event:
  assumes "vp_deviceRegistry p d \<noteq> None"
    and "\<forall>e \<in> set evs. wf_deviceId (snd e) = d \<and> wf_sessionId (snd e) = s"
    and "Suc i < length evs"
    and "vr_isValid (fst (verifyFlows sg evs p) ! Suc i)"
  shows "wf_totalVolume (snd (evs ! i)) \<le> wf_totalVolume (snd (evs ! Suc i))"
  using assms
proof (induction evs arbitrary: p i)
  case Nil
  then show ?case by simp
next
  case (Cons e evs)
  obtain now m where e: "e = (now, m)" by (cases e)
  define p1 where "p1 = snd (verifyMessage sg now (WATER_FLOW m) p)"
  have md: "wf_deviceId m = d" and ms: "wf_sessionId m = s"
    using Cons.prems(2) e by auto
  obtain device where dev: "vp_deviceRegistry p (wf_deviceId m) = Some device"
    using Cons.prems(1) md by auto
  have reg1: "vp_deviceRegistry p1 d \<noteq> None"
    unfolding p1_def using Cons.prems(1) by (rule verifyMessage_registry_dom)
  have rest: "fst (verifyFlows sg (e # evs) p) =
      fst (verifyMessage sg now (WATER_FLOW m) p) # fst (verifyFlows sg evs p1)"
    by (simp add: e p1_def split_beta Let_def)
  show ?case
  proof (cases i)
    case 0
    then obtain now' m' evs' where evs: "evs = (now', m') # evs'"
      using Cons.prems(3) by (cases evs) auto
    have key: "sessionKey m' = sessionKey m"
      using Cons.prems(2) md ms by (simp add: evs sessionKey_def)
    have tr: "vp_activeSessions p1 (sessionKey m') =
        Some (case vp_activeSessions p (sessionKey m) of
          None \<Rightarrow> \<lparr>tr_startTime = wf_timestamp m, tr_totalVolume = wf_totalVolume m\<rparr>
        | Some ex \<Rightarrow> ex\<lparr>tr_totalVolume := wf_totalVolume m\<rparr>)"
      unfolding p1_def by (simp add: verifyMessage_flow_tracks [OF dev] key)
    have acc: "vr_isValid (fst (verifyMessage sg now' (WATER_FLOW m') p1))"
      using Cons.prems(4) [unfolded rest] 0 by (simp add: evs split_beta Let_def)
    from verifyMessage_valid_no_decrease [OF tr acc]
    show ?thesis by (simp add: 0 e evs split: option.splits)
  next
    case (Suc j)
    have "wf_totalVolume (snd (evs ! j)) \<le> wf_totalVolume (snd (evs ! Suc j))"
    proof (rule Cons.IH [OF reg1])
      show "\<forall>e\<in>set evs. wf_deviceId (snd e) = d \<and> wf_sessionId (snd e) = s"
        using Cons.prems(2) by simp
      show "Suc j < length evs" using Cons.prems(3) Suc by simp
      show "vr_isValid (fst (verifyFlows sg evs p1) ! Suc j)" using Cons.prems(4) Suc by (simp add: rest)
    qed
    then show ?thesis by (simp add: Suc)
  qed
qed

text \<open>
  With any signature check that passes the first and the third of the events of
  volumes 3, 1, 2, the third is accepted below the first.
\<close>

lemma passing_check_accepts_decrease:
  assumes "check (WATER_FLOW (flow 3 OPEN)) ''ab''" and "check (WATER_FLOW (flow 2 OPEN)) ''ab''"
  shows "map vr_isValid (fst (verifyFlows check flows321 pipeline0)) = [True, False, True] \<and>
     acceptedVolumes check flows321 pipeline0 = [3, 2]"
  using assms
  by (simp add: acceptedVolumes_def flows321_def pipeline0_def registerDevice_def D1_def flow_def
      verifyMessage_def getDevice_def validateWaterFlowMessage_def sessionKey_def
      validateTimestamp_def maxTimestampDrift_def maxSessionDuration_def statusWarnings_def Let_def)


section \<open>The round trip of serialization\<close>

lemma update_fresh: "k \<notin> fst ` set acc \<Longrightarrow> AList.update k v acc = acc @ [(k, v)]"
  by (induction acc) auto

lemma roundtrip_all:
  "(properValue v \<longrightarrow> jsonable v \<longrightarrow> (\<exists>j. stringify v = Some j \<and> parse j = v))"
  "(properElements xs \<longrightarrow> jsonableElements xs \<longrightarrow> parseElements (stringifyElements xs) = xs)"
  "(properProperties ps \<longrightarrow> jsonableProperties ps \<longrightarrow> distinct (map fst ps) \<longrightarrow>
     (\<forall>acc. fst ` set ps \<inter> fst ` set acc = {} \<longrightarrow>
        parseMembers (stringifyProperties ps) acc = acc @ ps))"
proof (induction v and xs and ps rule: stringify_stringifyElements_stringifyProperties.induct)
  case (4 n)
  then show ?case by (cases n) simp_all
next
  case (7 ps)
  then show ?case by simp
next
  case (9 x xs)
  then show ?case by auto
next
  case (11 p ps)
  show ?case
  proof (intro impI allI)
    fix acc :: "(string \<times> jsvalue) list"
    assume pr: "properProperties (p # ps)" and js: "jsonableProperties (p # ps)"
      and di: "distinct (map fst (p # ps))"
      and fr: "fst ` set (p # ps) \<inter> fst ` set acc = {}"
    from 11(1) pr js obtain j where j: "stringify (snd p) = Some j" "parse j = snd p"
      by auto
    have fresh: "fst p \<notin> fst ` set acc" using fr by auto
    have fr': "fst ` set ps \<inter> fst ` set (acc @ [p]) = {}"
      using fr di by auto
    have "parseMembers (stringifyProperties ps) (acc @ [p]) = (acc @ [p]) @ ps"
      using 11(3) [OF j(1)] pr js di fr' by simp
    then show "parseMembers (stringifyProperties (p # ps)) acc = acc @ p # ps"
      using j by (simp add: update_fresh [OF fresh])
  qed
qed simp_all

text \<open>
  The claim C7 as it is stated fails. A flow message whose totalVolume is \<open>NaN\<close> or
  \<open>Infinity\<close> passes \<open>validateHCSMessage\<close> (\<open>typeof\<close> is \<open>number\<close>), is printed
  with \<open>null\<close> for that field, and comes back as \<open>null\<close>: the parsed copy fails the
  validator. A status message with \<open>errorCode: undefined\<close>, as the device simulator
  builds it when the device has no error, comes back without that property.
\<close>

theorem nonfinite_number_does_not_round_trip:
  "validateHCSMessage (flowObject NaN) = Some True \<and>
   deserializeMessage (serializeMessage (flowObject NaN)) = None \<and>
   validateHCSMessage (flowObject PosInfinity) = Some True \<and>
   deserializeMessage (serializeMessage (flowObject PosInfinity)) = None \<and>
   validateHCSMessage (statusObject [(''errorCode'', VUndefined)]) = Some True \<and>
   deserializeMessage (serializeMessage (statusObject [(''errorCode'', VUndefined)])) =
     Some (statusObject []) \<and>
   statusObject [] \<noteq> statusObject [(''errorCode'', VUndefined)]"
  by (simp add: format_eval)

text \<open>
  Claim C7, amended. For every structurally valid flow or status message \<open>e\<close> in
  which every number is finite and no property and no array element is undefined,
  deserializing the serialization of \<open>e\<close> yields \<open>e\<close> again.
\<close>

theorem round_trip_of_jsonable_events:
  assumes "validateHCSMessage e = Some True" and "properValue e" and "jsonable e"
  shows "deserializeMessage (serializeMessage e) = Some e"
proof -
  from roundtrip_all(1) [of e] assms(2,3) obtain j
    where "stringify e = Some j" and "parse j = e"
    by auto
  then show ?thesis
    using assms(1) by (simp add: serializeMessage_def deserializeMessage_def)
qed

theorem round_trip_of_jsonable_events_witness:
  "validateHCSMessage (flowObject (Finite 3)) = Some True \<and>
   properValue (flowObject (Finite 3)) \<and> jsonable (flowObject (Finite 3)) \<and>
   deserializeMessage (serializeMessage (flowObject (Finite 3))) = Some (flowObject (Finite 3)) \<and>
   deserializeMessage (serializeMessage (statusObject [(''errorCode'', VString ''E1'')])) =
     Some (statusObject [(''errorCode'', VString ''E1'')])"
proof -
  have v: "validateHCSMessage (flowObject (Finite 3)) = Some True"
    by (simp add: format_eval)
  have p: "properValue (flowObject (Finite 3))" and j: "jsonable (flowObject (Finite 3))"
    by (simp_all add: flowObject_def)
  have v': "validateHCSMessage (statusObject [(''errorCode'', VString ''E1'')]) = Some True"
    by (simp add: format_eval)
  have p': "properValue (statusObject [(''errorCode'', VString ''E1'')])"
    and j': "jsonable (statusObject [(''errorCode'', VString ''E1'')])"
    by (simp_all add: statusObject_def)
  show ?thesis
    using round_trip_of_jsonable_events [OF v p j] round_trip_of_jsonable_events [OF v' p' j'] v p j
    by simp
qed

section \<open>At most one active session per device\<close>

lemma filter_update_le:
  "length (filter P (map snd (AList.update k v xs))) \<le>
     length (filter P (map snd xs)) + (if P v then 1 else 0)"
  by (induction xs) auto

lemma filter_update_same:
  "map_of xs k = Some v \<Longrightarrow> P v' = P v \<Longrightarrow>
   length (filter P (map snd (AList.update k v' xs))) = length (filter P (map snd xs))"
  by (induction xs) (auto split: if_splits)

lemma filter_delete_le:
  "length (filter P (map snd (AList.delete k xs))) \<le> length (filter P (map snd xs))"
  by (induction xs) auto

lemma filter_fold_delete_le:
  "length (filter P (map snd (fold AList.delete ks xs))) \<le> length (filter P (map snd xs))"
proof (induction ks arbitrary: xs)
  case Nil
  show ?case by simp
next
  case (Cons k ks)
  have "length (filter P (map snd (fold AList.delete ks (AList.delete k xs))))
      \<le> length (filter P (map snd (AList.delete k xs)))"
    by (rule Cons.IH)
  also have "\<dots> \<le> length (filter P (map snd xs))"
    by (rule filter_delete_le)
  finally show ?case by simp
qed

lemma activeOn_update_le:
  "sm_activeSessions sm' = AList.update k v (sm_activeSessions sm) \<Longrightarrow>
   length (activeOn d sm') \<le>
     length (activeOn d sm) + (if ws_deviceId v = d \<and> ws_status v = active then 1 else 0)"
  unfolding activeOn_def
  using filter_update_le [of "\<lambda>session. ws_deviceId session = d \<and> ws_status session = active" k v
      "sm_activeSessions sm"]
  by simp

lemma activeOn_update_inactive:
  "sm_activeSessions sm' = AList.update k v (sm_activeSessions sm) \<Longrightarrow> ws_status v \<noteq> active \<Longrightarrow>
   length (activeOn d sm') \<le> length (activeOn d sm)"
  using activeOn_update_le [of sm' k v sm d] by simp

lemma activeOn_completeSession:
  "length (activeOn d (snd (completeSession now k r sm))) \<le> length (activeOn d sm)"
proof (cases "map_of (sm_activeSessions sm) k")
  case None
  then show ?thesis by (simp add: completeSession_def)
next
  case (Some session)
  show ?thesis
  proof (cases "ws_status session = active")
    case True
    show ?thesis
      by (rule activeOn_update_inactive
          [where k = k and v = "session\<lparr>ws_status := completed, ws_endTime := Some now\<rparr>"])
        (simp_all add: completeSession_def Some True)
  next
    case False
    then show ?thesis by (simp add: completeSession_def Some)
  qed
qed

lemma activeOn_cancelSession:
  "length (activeOn d (snd (cancelSession now k r sm))) \<le> length (activeOn d sm)"
proof (cases "map_of (sm_activeSessions sm) k")
  case None
  then show ?thesis by (simp add: cancelSession_def)
next
  case (Some session)
  show ?thesis
  proof (cases "ws_status session = active")
    case True
    show ?thesis
      by (rule activeOn_update_inactive
          [where k = k and v = "session\<lparr>ws_status := cancelled, ws_endTime := Some now,
             ws_errorMessage := r\<rparr>"])
        (simp_all add: cancelSession_def Some True)
  next
    case False
    then show ?thesis by (simp add: cancelSession_def Some)
  qed
qed

lemma activeOn_errorSession:
  "length (activeOn d (snd (errorSession now k r sm))) \<le> length (activeOn d sm)"
proof (cases "map_of (sm_activeSessions sm) k")
  case None
  then show ?thesis by (simp add: errorSession_def)
next
  case (Some session)
  show ?thesis
    by (rule activeOn_update_inactive
        [where k = k and v = "session\<lparr>ws_status := error, ws_endTime := Some now,
           ws_errorMessage := Some r\<rparr>"])
      (simp_all add: errorSession_def Some)
qed

lemma getActive_None_activeOn:
  "getActiveSessionForDevice d sm = None \<longleftrightarrow> activeOn d sm = []"
  by (auto simp: getActiveSessionForDevice_def activeOn_def find_None_iff filter_empty_conv)

lemma activeOn_createSession:
  assumes "\<forall>d. length (activeOn d sm) \<le> 1"
  shows "length (activeOn d' (snd (createSession now d sm))) \<le> 1"
proof (cases "fst (createSession now d sm)")
  case (Inl e)
  then have "snd (createSession now d sm) = sm"
    by (auto simp: createSession_def Let_def split: option.splits if_splits)
  then show ?thesis using assms by simp
next
  case (Inr session)
  then have none: "activeOn (sd_deviceId d) sm = []"
    and upd: "sm_activeSessions (snd (createSession now d sm)) =
        AList.update (sd_sessionId d) session (sm_activeSessions sm)"
    and dev: "ws_deviceId session = sd_deviceId d"
    by (auto simp: createSession_def Let_def getActive_None_activeOn [symmetric]
        split: option.splits if_splits)
  let ?P = "\<lambda>session. ws_deviceId session = d' \<and> ws_status session = active"
  have le: "length (activeOn d' (snd (createSession now d sm))) \<le>
      length (activeOn d' sm) + (if ?P session then 1 else 0)"
    by (rule activeOn_update_le [OF upd])
  show ?thesis
  proof (cases "d' = sd_deviceId d")
    case True
    then show ?thesis using le none by (simp split: if_splits)
  next
    case False
    then have "\<not> ?P session" using dev by simp
    then show ?thesis using le assms [rule_format, of d'] by (simp split: if_splits)
  qed
qed

lemma activeOn_processWaterFlowMessage:
  "length (activeOn d (processWaterFlowMessage now pm m sm)) \<le> length (activeOn d sm)"
proof (cases "map_of (sm_activeSessions sm) (wf_sessionId m)")
  case None
  then show ?thesis by (simp add: processWaterFlowMessage_def)
next
  case (Some session)
  let ?P = "\<lambda>session. ws_deviceId session = d \<and> ws_status session = active"
  define session1 where "session1 = session\<lparr>ws_flowEvents := ws_flowEvents session @
      [flowEventOf pm m],
      ws_totalVolume := wf_totalVolume m,
      ws_totalCost := wf_totalVolume m * ws_pricePerLiter session,
      ws_lastActivity := now\<rparr>"
  define sm1 where "sm1 = sm\<lparr>sm_activeSessions :=
      AList.update (wf_sessionId m) session1 (sm_activeSessions sm)\<rparr>"
  have eq: "length (activeOn d sm1) = length (activeOn d sm)"
    unfolding activeOn_def sm1_def using filter_update_same [OF Some, of ?P session1]
    by (simp add: session1_def)
  have "processWaterFlowMessage now pm m sm = sm \<or>
        processWaterFlowMessage now pm m sm = sm1 \<or>
        processWaterFlowMessage now pm m sm =
          snd (completeSession now (ws_sessionId session1)
            (Some ''Volume limit reached or valve closed'') sm1)"
    by (simp add: processWaterFlowMessage_def Some Let_def session1_def sm1_def)
  then show ?thesis
    using eq activeOn_completeSession [of d now "ws_sessionId session1" _ sm1]
    by auto
qed

lemma activeOn_processDeviceStatusMessage:
  "length (activeOn d (processDeviceStatusMessage now pm m sm)) \<le> length (activeOn d sm)"
proof -
  have "\<And>sm1 k r. sm_activeSessions sm1 = sm_activeSessions sm \<Longrightarrow>
      length (activeOn d (snd (cancelSession now k r sm1))) \<le> length (activeOn d sm)"
    using activeOn_cancelSession by (metis activeOn_def)
  then show ?thesis
    by (auto simp: processDeviceStatusMessage_def Let_def activeOn_def split: option.splits)
qed

lemma activeOn_processMessage:
  "length (activeOn d (processMessage now pm sm)) \<le> length (activeOn d sm)"
  by (auto simp: processMessage_def activeOn_processWaterFlowMessage
      activeOn_processDeviceStatusMessage split: option.splits HCSMessage.splits)

lemma activeOn_cleanupVisit:
  "length (activeOn d (fst (cleanupVisit now k acc))) \<le> length (activeOn d (fst acc))"
  using activeOn_cancelSession [of d now k _ "fst acc"]
    activeOn_completeSession [of d now k _ "fst acc"]
  by (auto simp: cleanupVisit_def Let_def split: option.splits)

lemma activeOn_fold_cleanupVisit:
  "length (activeOn d (fst (fold (cleanupVisit now) ks acc))) \<le> length (activeOn d (fst acc))"
proof (induction ks arbitrary: acc)
  case Nil
  show ?case by simp
next
  case (Cons k ks)
  have "length (activeOn d (fst (fold (cleanupVisit now) ks (cleanupVisit now k acc))))
      \<le> length (activeOn d (fst (cleanupVisit now k acc)))"
    by (rule Cons.IH)
  also have "\<dots> \<le> length (activeOn d (fst acc))"
    by (rule activeOn_cleanupVisit)
  finally show ?case by simp
qed

lemma activeOn_cleanupOldSessions:
  "length (activeOn d (cleanupOldSessions now sm)) \<le> length (activeOn d sm)"
proof -
  define acc where "acc = fold (cleanupVisit now) (map fst (sm_activeSessions sm)) (sm, [])"
  have "length (activeOn d (cleanupOldSessions now sm)) \<le> length (activeOn d (fst acc))"
    unfolding cleanupOldSessions_def Let_def acc_def [symmetric] activeOn_def
    using filter_fold_delete_le by simp
  also have "\<dots> \<le> length (activeOn d (fst (sm, [] :: string list)))"
    unfolding acc_def by (rule activeOn_fold_cleanupVisit)
  finally show ?thesis by simp
qed

lemma perform_keeps_one_active:
  assumes "\<forall>d. length (activeOn d sm) \<le> 1"
  shows "length (activeOn d (perform op sm)) \<le> 1"
proof (cases op)
  case (CreateSession now sd)
  then show ?thesis using activeOn_createSession [OF assms] by simp
next
  case (ProcessMessage now pm)
  then show ?thesis
    using activeOn_processMessage [of d now pm sm] assms [rule_format, of d] by simp
next
  case (CompleteSession now k r)
  then show ?thesis
    using activeOn_completeSession [of d now k r sm] assms [rule_format, of d] by simp
next
  case (CancelSession now k r)
  then show ?thesis
    using activeOn_cancelSession [of d now k r sm] assms [rule_format, of d] by simp
next
  case (ErrorSession now k r)
  then show ?thesis
    using activeOn_errorSession [of d now k r sm] assms [rule_format, of d] by simp
next
  case (CleanupOldSessions now)
  then show ?thesis
    using activeOn_cleanupOldSessions [of d now sm] assms [rule_format, of d] by simp
qed

lemma fold_perform_keeps_one_active:
  "\<forall>d. length (activeOn d sm) \<le> 1 \<Longrightarrow> length (activeOn d (fold perform ops sm)) \<le> 1"
proof (induction ops arbitrary: sm d)
  case Nil
  then show ?case by simp
next
  case (Cons op ops)
  have "\<forall>d. length (activeOn d (perform op sm)) \<le> 1"
    using perform_keeps_one_active [OF Cons.prems] by simp
  from Cons.IH [OF this] show ?case by simp
qed


text \<open>
  Claim C3. After any sequence of createSession, processMessage, completeSession,
  cancelSession, errorSession and cleanup sweeps from a new session manager, the
  registry holds at most one active session of any device \<open>d\<close>.
\<close>

theorem at_most_one_active_session_per_device:
  "length (activeOn d (run config ops)) \<le> 1"
  unfolding run_def
  by (rule fold_perform_keeps_one_active) (simp add: activeOn_def newSessionManager_def)

theorem at_most_one_active_session_per_device_witness:
  "length (activeOn ''D1'' (run defaultSessionManagerConfig (opened @ [CreateSession 250 S2]))) \<le> 1 \<and>
   map ws_sessionId (activeOn ''D1'' (run defaultSessionManagerConfig (opened @ [CreateSession 250 S2])))
     = [''S1'']"
  using at_most_one_active_session_per_device
    [of "''D1''" defaultSessionManagerConfig "opened @ [CreateSession 250 S2]"]
  by (simp add: session_eval)

section \<open>createSession\<close>

text \<open>
  Claim C5. \<open>createSession\<close> fails exactly when the device has no liveness record
  marked \<open>ONLINE\<close> or already has an active session; a failure leaves the manager,
  and so the registry, unchanged; a success returns a session of status \<open>active\<close>
  and registers it under its id.
\<close>

theorem createSession_fails_exactly_when:
  "(isl (fst (createSession now d sm)) \<longleftrightarrow>
      \<not> markedOnline (sd_deviceId d) sm \<or> activeOn (sd_deviceId d) sm \<noteq> []) \<and>
   (isl (fst (createSession now d sm)) \<longrightarrow> snd (createSession now d sm) = sm) \<and>
   (\<not> isl (fst (createSession now d sm)) \<longrightarrow>
      (\<exists>session. fst (createSession now d sm) = Inr session \<and>
         ws_status session = active \<and> ws_sessionId session = sd_sessionId d \<and>
         ws_deviceId session = sd_deviceId d \<and>
         getSession (sd_sessionId d) (snd (createSession now d sm)) = Some session \<and>
         sm_activeSessions (snd (createSession now d sm)) =
           AList.update (sd_sessionId d) session (sm_activeSessions sm)))"
  by (auto simp: createSession_def markedOnline_def getSession_def Let_def update_conv'
      getActive_None_activeOn [symmetric] split: option.splits)

theorem createSession_fails_exactly_when_witness:
  "isl (fst (createSession 200 S1 (newSessionManager defaultSessionManagerConfig))) \<and>
   snd (createSession 200 S1 (newSessionManager defaultSessionManagerConfig)) =
     newSessionManager defaultSessionManagerConfig \<and>
   \<not> isl (fst (createSession 200 S1
        (run defaultSessionManagerConfig [ProcessMessage 100 (pmStatus ONLINE)]))) \<and>
   map_option ws_status (getSession ''S1'' (snd (createSession 200 S1
        (run defaultSessionManagerConfig [ProcessMessage 100 (pmStatus ONLINE)])))) = Some active"
  using createSession_fails_exactly_when
      [of 200 S1 "newSessionManager defaultSessionManagerConfig"]
    createSession_fails_exactly_when
      [of 200 S1 "run defaultSessionManagerConfig [ProcessMessage 100 (pmStatus ONLINE)]"]
  by (simp add: session_eval markedOnline_def)

section \<open>Flow events on a session\<close>

text \<open>
  The claim C4 as it is stated fails for a session that is no longer active: a valid,
  matching flow event with the valve closed is appended to a cancelled session and
  sets its volume, and the session stays cancelled, since \<open>completeSession\<close>
  returns at its guard.
\<close>

theorem closed_valve_on_cancelled_session_not_completed:
  "map_option (\<lambda>session. (ws_status session, ws_totalVolume session, length (ws_flowEvents session)))
     (getSession ''S1'' (run defaultSessionManagerConfig
        (cancelledS1 @ [ProcessMessage 300 (pmFlow 2 1 CLOSED)]))) = Some (cancelled, 1, 1)"
  by (simp add: session_eval cancelledS1_def)

text \<open>
  Claim C4, amended. A valid flow event that matches the id, device and user of an
  active session appends the event to the flow history, replaces totalVolume by the
  event's cumulative volume, sets totalCost to that volume times pricePerLiter,
  sets lastActivity to the clock, and completes the session (status and endTime)
  exactly when the valve is closed or the volume has reached maxVolume. Scenario A:
  volumes 1, 3, 5 with the valve open, open, closed on a session of maxVolume 5 and
  price 1/10 leave it completed with totalVolume 5 and totalCost 1/2.
\<close>

theorem flow_event_updates_active_session:
  "(pm_isValid pm \<and> pm_message pm = Some (WATER_FLOW m) \<and>
    getSession (wf_sessionId m) sm = Some s \<and> ws_sessionId s = wf_sessionId m \<and>
    ws_deviceId s = wf_deviceId m \<and> ws_userId s = wf_userId m \<and> ws_status s = active \<longrightarrow>
    getSession (wf_sessionId m) (processMessage now pm sm) =
      Some (s\<lparr>ws_flowEvents := ws_flowEvents s @ [flowEventOf pm m],
               ws_totalVolume := wf_totalVolume m,
               ws_totalCost := wf_totalVolume m * ws_pricePerLiter s,
               ws_lastActivity := now,
               ws_status := (if wf_valveStatus m = CLOSED \<or> wf_totalVolume m \<ge> ws_maxVolume s
                             then completed else active),
               ws_endTime := (if wf_valveStatus m = CLOSED \<or> wf_totalVolume m \<ge> ws_maxVolume s
                              then Some now else ws_endTime s)\<rparr>)) \<and>
   map_option (\<lambda>session. (ws_status session, ws_totalVolume session, ws_totalCost session))
     (getSession ''S1'' (run defaultSessionManagerConfig scenarioA)) = Some (completed, 5, 1 / 2)"
proof (intro conjI impI)
  assume h: "pm_isValid pm \<and> pm_message pm = Some (WATER_FLOW m) \<and>
    getSession (wf_sessionId m) sm = Some s \<and> ws_sessionId s = wf_sessionId m \<and>
    ws_deviceId s = wf_deviceId m \<and> ws_userId s = wf_userId m \<and> ws_status s = active"
  then show "getSession (wf_sessionId m) (processMessage now pm sm) =
      Some (s\<lparr>ws_flowEvents := ws_flowEvents s @ [flowEventOf pm m],
               ws_totalVolume := wf_totalVolume m,
               ws_totalCost := wf_totalVolume m * ws_pricePerLiter s,
               ws_lastActivity := now,
               ws_status := (if wf_valveStatus m = CLOSED \<or> wf_totalVolume m \<ge> ws_maxVolume s
                             then completed else active),
               ws_endTime := (if wf_valveStatus m = CLOSED \<or> wf_totalVolume m \<ge> ws_maxVolume s
                              then Some now else ws_endTime s)\<rparr>)"
    by (simp add: processMessage_def processWaterFlowMessage_def getSession_def Let_def
        completeSession_def update_conv')
next
  show "map_option (\<lambda>session. (ws_status session, ws_totalVolume session, ws_totalCost session))
     (getSession ''S1'' (run defaultSessionManagerConfig scenarioA)) = Some (completed, 5, 1 / 2)"
    by (simp add: session_eval)
qed

theorem flow_event_updates_active_session_witness:
  "getSession ''S1'' (run defaultSessionManagerConfig opened) = Some sessionS1 \<and>
   map_option (\<lambda>session. (ws_status session, ws_endTime session, ws_totalVolume session,
       ws_totalCost session, ws_lastActivity session, map fe_totalVolume (ws_flowEvents session)))
     (getSession ''S1'' (processMessage 300 (pmFlow 2 1 OPEN)
        (run defaultSessionManagerConfig opened))) = Some (active, None, 1, 1 / 10, 300, [1])"
proof -
  have s: "getSession ''S1'' (run defaultSessionManagerConfig opened) = Some sessionS1"
    by (simp add: session_eval sessionS1_def)
  have h: "pm_isValid (pmFlow 2 1 OPEN) \<and>
      pm_message (pmFlow 2 1 OPEN) = Some (WATER_FLOW (flow 1 OPEN)) \<and>
      getSession (wf_sessionId (flow 1 OPEN)) (run defaultSessionManagerConfig opened)
        = Some sessionS1 \<and>
      ws_sessionId sessionS1 = wf_sessionId (flow 1 OPEN) \<and>
      ws_deviceId sessionS1 = wf_deviceId (flow 1 OPEN) \<and>
      ws_userId sessionS1 = wf_userId (flow 1 OPEN) \<and> ws_status sessionS1 = active"
    using s by (simp add: pmFlow_def flow_def sessionS1_def)
  from flow_event_updates_active_session [THEN conjunct1, rule_format, OF h, of 300]
  show ?thesis
    using s by (simp add: flow_def sessionS1_def flowEventOf_def)
qed

section \<open>Terminal sessions\<close>

text \<open>
  \<open>completeSession\<close> and \<open>cancelSession\<close> return false and change nothing on a
  session that is absent or not active; \<open>errorSession\<close> does so on an absent one.
\<close>

lemma completeSession_noop:
  "getSession k sm = None \<or> (\<exists>s. getSession k sm = Some s \<and> ws_status s \<noteq> active) \<Longrightarrow>
   completeSession now k r sm = (False, sm)"
  by (auto simp: completeSession_def getSession_def)

lemma cancelSession_noop:
  "getSession k sm = None \<or> (\<exists>s. getSession k sm = Some s \<and> ws_status s \<noteq> active) \<Longrightarrow>
   cancelSession now k r sm = (False, sm)"
  by (auto simp: cancelSession_def getSession_def)

lemma errorSession_absent:
  "getSession k sm = None \<Longrightarrow> errorSession now k r sm = (False, sm)"
  by (simp add: errorSession_def getSession_def)

text \<open>
  Claim C1 does not hold of the code. Session \<open>S1\<close> is completed at the end of
  scenario A. \<open>errorSession\<close> on it returns true and rewrites status, endTime and
  errorMessage: it lacks the test \<open>session.status !== 'active'\<close> of its two
  siblings. A later valid flow event of the session appends to its flow history and
  rewrites totalVolume, totalCost and lastActivity: \<open>processWaterFlowMessage\<close>
  does not look at the status.
\<close>

theorem terminal_session_is_mutated:
  "map_option ws_status (getSession ''S1'' (run defaultSessionManagerConfig scenarioA))
     = Some completed \<and>
   fst (errorSession 600 ''S1'' ''late'' (run defaultSessionManagerConfig scenarioA)) \<and>
   map_option (\<lambda>session. (ws_status session, ws_endTime session, ws_errorMessage session))
     (getSession ''S1'' (snd (errorSession 600 ''S1'' ''late''
        (run defaultSessionManagerConfig scenarioA))))
     = Some (error, Some 600, Some ''late'') \<and>
   map_option (\<lambda>session. (ws_totalVolume session, ws_totalCost session, ws_lastActivity session,
       length (ws_flowEvents session)))
     (getSession ''S1'' (run defaultSessionManagerConfig scenarioA))
     = Some (5, 1 / 2, 500, 3) \<and>
   map_option (\<lambda>session. (ws_totalVolume session, ws_totalCost session, ws_lastActivity session,
       length (ws_flowEvents session)))
     (getSession ''S1'' (processMessage 600 (pmFlow 5 7 OPEN)
        (run defaultSessionManagerConfig scenarioA)))
     = Some (7, 7 / 10, 600, 4)"
  by (simp add: session_eval)

section \<open>Statistics\<close>

lemma foldl_plus_sum_list:
  "foldl (\<lambda>sum s. sum + f s) a xs = a + sum_list (map f xs)" for a :: rat
  by (induction xs arbitrary: a) (simp_all add: add.assoc)

lemma status_partition:
  "length (filter (\<lambda>s. ws_status s = active) xs) +
   length (filter (\<lambda>s. ws_status s = completed) xs) +
   length (filter (\<lambda>s. ws_status s = cancelled) xs) +
   length (filter (\<lambda>s. ws_status s = error) xs) = length xs"
proof (induction xs)
  case Nil
  show ?case by simp
next
  case (Cons x xs)
  then show ?case by (cases "ws_status x") simp_all
qed

text \<open>
  Claim C10. The four status counts of \<open>getStatistics\<close> add up to totalSessions,
  and totalVolume and totalRevenue are the sums of totalVolume and totalCost over
  every session of the registry, whatever its status.
\<close>

theorem statistics_counts_and_totals:
  "st_activeSessions (getStatistics sm) + st_completedSessions (getStatistics sm) +
     st_cancelledSessions (getStatistics sm) + st_errorSessions (getStatistics sm)
     = st_totalSessions (getStatistics sm) \<and>
   st_totalVolume (getStatistics sm) = sum_list (map (ws_totalVolume \<circ> snd) (sm_activeSessions sm)) \<and>
   st_totalRevenue (getStatistics sm) = sum_list (map (ws_totalCost \<circ> snd) (sm_activeSessions sm))"
  using status_partition [of "map snd (sm_activeSessions sm)"]
  by (simp add: getStatistics_def Let_def foldl_plus_sum_list)

theorem statistics_counts_and_totals_witness:
  "st_cancelledSessions (getStatistics (run defaultSessionManagerConfig offlineMidway)) = 1 \<and>
   st_totalSessions (getStatistics (run defaultSessionManagerConfig offlineMidway)) = 1 \<and>
   st_totalVolume (getStatistics (run defaultSessionManagerConfig offlineMidway)) = 1 \<and>
   st_totalRevenue (getStatistics (run defaultSessionManagerConfig offlineMidway)) = 1 / 10"
  using statistics_counts_and_totals [of "run defaultSessionManagerConfig offlineMidway"]
  by (simp add: session_eval offlineMidway_def getStatistics_def)

section \<open>The periodic sweep\<close>

lemma sweptSession_idem:
  "sweptSession now config (sweptSession now config s) = sweptSession now config s"
  by (simp add: sweptSession_def)

lemma cleanupVisit_absent:
  "map_of (sm_activeSessions (fst acc)) k' = None \<Longrightarrow> cleanupVisit now k' acc = acc"
  by (simp add: cleanupVisit_def)

lemma cleanupVisit_present:
  assumes "map_of (sm_activeSessions (fst acc)) k' = Some s"
  shows "cleanupVisit now k' acc =
    ((fst acc)\<lparr>sm_activeSessions :=
        AList.update k' (sweptSession now (sm_config (fst acc)) s) (sm_activeSessions (fst acc))\<rparr>,
     if removable now (sweptSession now (sm_config (fst acc)) s) then snd acc @ [k'] else snd acc)"
proof -
  have same: "AList.update k' s (sm_activeSessions (fst acc)) = sm_activeSessions (fst acc)"
    using assms by (simp add: update_triv)
  have rec: "\<And>sm :: SessionManager. sm\<lparr>sm_activeSessions := sm_activeSessions sm\<rparr> = sm"
    by simp
  show ?thesis
    using assms
    by (auto simp: cleanupVisit_def Let_def sweptSession_def removable_def cancelSession_def
        completeSession_def update_conv' same split: option.splits)
qed

lemma swept_active_not_removable:
  "ws_status s = active \<Longrightarrow> \<not> removable now (sweptSession now config s)"
  by (simp add: removable_def sweptSession_def)

lemma cleanupVisit_visited:
  assumes "ws_status s = active" and "visited now config k s acc"
  shows "visited now config k s (cleanupVisit now k' acc)"
proof (cases "map_of (sm_activeSessions (fst acc)) k'")
  case None
  then show ?thesis using assms(2) by (simp add: cleanupVisit_absent)
next
  case (Some s')
  show ?thesis
  proof (cases "k' = k")
    case True
    have Some': "map_of (sm_activeSessions (fst acc)) k = Some (sweptSession now config s)"
      using assms(2) by (simp add: visited_def)
    show ?thesis
      unfolding True
      using assms(2) swept_active_not_removable [OF assms(1), of now config]
      by (simp add: cleanupVisit_present [OF Some'] visited_def update_conv' sweptSession_idem)
  next
    case False
    then show ?thesis
      using assms(2) by (simp add: cleanupVisit_present [OF Some] visited_def update_conv')
  qed
qed

lemma cleanupVisit_pending_other:
  assumes "pending now config k s acc" and "k' \<noteq> k"
  shows "pending now config k s (cleanupVisit now k' acc)"
proof (cases "map_of (sm_activeSessions (fst acc)) k'")
  case None
  then show ?thesis using assms(1) by (simp add: cleanupVisit_absent)
next
  case (Some s')
  then show ?thesis
    using assms by (simp add: cleanupVisit_present [OF Some] pending_def update_conv')
qed

lemma cleanupVisit_pending_same:
  assumes "ws_status s = active" and "pending now config k s acc"
  shows "visited now config k s (cleanupVisit now k acc)"
proof -
  have Some: "map_of (sm_activeSessions (fst acc)) k = Some s"
    using assms(2) by (simp add: pending_def)
  show ?thesis
    using assms swept_active_not_removable [OF assms(1), of now config]
    by (simp add: cleanupVisit_present [OF Some] pending_def visited_def update_conv')
qed

lemma fold_cleanupVisit_visited:
  "ws_status s = active \<Longrightarrow> visited now config k s acc \<Longrightarrow>
   visited now config k s (fold (cleanupVisit now) ks acc)"
  by (induction ks arbitrary: acc) (simp_all add: cleanupVisit_visited)

lemma fold_cleanupVisit_pending:
  "ws_status s = active \<Longrightarrow> pending now config k s acc \<Longrightarrow> k \<in> set ks \<Longrightarrow>
   visited now config k s (fold (cleanupVisit now) ks acc)"
proof (induction ks arbitrary: acc)
  case Nil
  then show ?case by simp
next
  case (Cons k' ks)
  show ?case
  proof (cases "k' = k")
    case True
    then show ?thesis
      using Cons.prems cleanupVisit_pending_same fold_cleanupVisit_visited by simp
  next
    case False
    then show ?thesis
      using Cons cleanupVisit_pending_other by simp
  qed
qed

lemma map_of_fold_delete:
  "k \<notin> set ks \<Longrightarrow> map_of (fold AList.delete ks xs) k = map_of xs k"
  by (induction ks arbitrary: xs) (simp_all add: delete_conv')

lemma cleanupOldSessions_session:
  assumes "getSession k sm = Some s" and "ws_status s = active"
  shows "getSession k (cleanupOldSessions now sm) = Some (sweptSession now (sm_config sm) s)"
proof -
  define acc where
    "acc = fold (cleanupVisit now) (map fst (sm_activeSessions sm)) (sm, [])"
  have "k \<in> set (map fst (sm_activeSessions sm))"
    using assms(1) by (auto simp: getSession_def dest: map_of_SomeD intro: rev_image_eqI)
  moreover have "pending now (sm_config sm) k s (sm, [])"
    using assms(1) by (simp add: pending_def getSession_def)
  ultimately have "visited now (sm_config sm) k s acc"
    unfolding acc_def using assms(2) fold_cleanupVisit_pending by blast
  then show ?thesis
    by (simp add: cleanupOldSessions_def Let_def acc_def [symmetric] getSession_def visited_def
        map_of_fold_delete)
qed

text \<open>
  The claim C8 as it is stated fails on the max-duration branch: the sweep leaves the
  manager exactly as a caller's \<open>completeSession\<close> at the same clock value does,
  and the session carries no reason.
\<close>

theorem sweep_completion_stores_no_reason:
  "cleanupOldSessions 2000300 (run defaultSessionManagerConfig agedS1) =
     snd (completeSession 2000300 ''S1'' None (run defaultSessionManagerConfig agedS1)) \<and>
   map_option (\<lambda>session. (ws_status session, ws_errorMessage session))
     (getSession ''S1'' (cleanupOldSessions 2000300 (run defaultSessionManagerConfig agedS1)))
     = Some (completed, None)"
  by (simp add: session_eval sweep_eval)

text \<open>
  Claim C8, amended. On an active session the sweep's inactivity branch (now -
  lastActivity > sessionTimeout) leaves the session cancelled with endTime set and
  the reason 'Session timeout due to inactivity' stored in errorMessage. Its
  max-duration branch (no inactivity timeout, now - startTime > maxSessionDuration)
  leaves the session completed with endTime set and every other field, errorMessage
  among them, as it was: the reason given to \<open>completeSession\<close> is logged, not
  stored.
\<close>

theorem sweep_timeout_reasons:
  assumes "getSession k sm = Some s" and "ws_status s = active"
  shows "(now - ws_lastActivity s > cfg_sessionTimeout (sm_config sm) \<longrightarrow>
       getSession k (cleanupOldSessions now sm) =
         Some (s\<lparr>ws_status := cancelled, ws_endTime := Some now,
                 ws_errorMessage := Some ''Session timeout due to inactivity''\<rparr>)) \<and>
     (\<not> now - ws_lastActivity s > cfg_sessionTimeout (sm_config sm) \<and>
      now - ws_startTime s > cfg_maxSessionDuration (sm_config sm) \<longrightarrow>
       getSession k (cleanupOldSessions now sm) =
         Some (s\<lparr>ws_status := completed, ws_endTime := Some now\<rparr>))"
  using cleanupOldSessions_session [OF assms, of now] assms(2)
  by (simp add: sweptSession_def)

theorem sweep_timeout_reasons_witness:
  "map_option (\<lambda>session. (ws_status session, ws_endTime session, ws_errorMessage session))
     (getSession ''S1'' (cleanupOldSessions 2300000 (run defaultSessionManagerConfig agedS1)))
     = Some (cancelled, Some 2300000, Some ''Session timeout due to inactivity'') \<and>
   map_option (\<lambda>session. (ws_status session, ws_endTime session, ws_errorMessage session))
     (getSession ''S1'' (cleanupOldSessions 2000300 (run defaultSessionManagerConfig agedS1)))
     = Some (completed, Some 2000300, None)"
proof -
  have s: "getSession ''S1'' (run defaultSessionManagerConfig agedS1) = Some agedSession"
    by (simp add: session_eval agedS1_def agedSession_def sessionS1_def)
  have a: "ws_status agedSession = active"
    by (simp add: agedSession_def sessionS1_def)
  have c: "sm_config (run defaultSessionManagerConfig agedS1) = defaultSessionManagerConfig"
    by (simp add: session_eval agedS1_def)
  show ?thesis
    using sweep_timeout_reasons [OF s a, of 2300000, unfolded c]
      sweep_timeout_reasons [OF s a, of 2000300, unfolded c]
    by (simp add: defaultSessionManagerConfig_def agedSession_def sessionS1_def)
qed

section \<open>The cursor of the ingestion client\<close>

lemma mathMax_Max: "mathMax xs = Max (set xs)" if "xs \<noteq> []"
proof (cases xs)
  case Nil
  then show ?thesis using that by simp
next
  case (Cons a list)
  show ?thesis using Max.set_eq_fold [of a list] by (simp add: Cons)
qed

lemma processMessage1_sequence:
  "pm_sequenceNumber (processMessage1 decode verify r) = tm_sequence_number r"
proof (cases "decode (tm_message r)")
  case (Inl e)
  then show ?thesis by (simp add: processMessage1_def)
next
  case (Inr m)
  then show ?thesis by (cases "verify m") (simp_all add: processMessage1_def)
qed

lemma processMessages_sequence:
  "map pm_sequenceNumber (processMessages decode verify raw) = map tm_sequence_number raw"
  by (simp add: processMessages_def processMessage1_sequence)

lemma handedTo_Cons:
  "handedTo cbs (m # ms) = map (\<lambda>callback. (callback, m)) cbs @ handedTo cbs ms"
  by (simp add: handedTo_def)

lemma handedTo_Nil: "handedTo cbs [] = []"
  by (simp add: handedTo_def)

lemma handedTo_append:
  "handedTo cbs (xs @ ys) = handedTo cbs xs @ handedTo cbs ys"
  by (simp add: handedTo_def)

lemma handedTo_sequence:
  "cbs \<noteq> [] \<Longrightarrow> (pm_sequenceNumber \<circ> snd) ` set (handedTo cbs ms) = pm_sequenceNumber ` set ms"
proof (induction ms)
  case Nil
  show ?case by (simp add: handedTo_Nil)
next
  case (Cons m ms)
  have "(pm_sequenceNumber \<circ> snd) ` set (map (\<lambda>callback. (callback, m)) cbs) = {pm_sequenceNumber m}"
    using Cons.prems by (cases cbs) (auto simp: image_iff)
  then show ?case
    using Cons by (simp add: handedTo_Cons image_Un)
qed

lemma handedTo_nonempty: "handedTo cbs ms \<noteq> [] \<Longrightarrow> cbs \<noteq> [] \<and> ms \<noteq> []"
  by (cases ms) (auto simp: handedTo_def)

lemma poll_ok:
  assumes "mc_isPolling c"
    and "fetch (buildUrl (mc_config c) (Some (mc_lastSequenceNumber c + 1)) 100) = FetchOk raw"
  shows "poll decode verify fetch c =
     (c\<lparr>mc_lastSequenceNumber :=
          (if raw = [] then mc_lastSequenceNumber c else Max (tm_sequence_number ` set raw)),
        mc_retryCount := 0, mc_pollTimeout := Some (pollInterval (mc_config c))\<rparr>,
      handedTo (mc_messageCallbacks c) (processMessages decode verify raw))"
proof (cases "raw = []")
  case True
  then show ?thesis
    using assms
    by (simp add: poll_def getMessages_def Let_def scheduleNextPoll_def processMessages_def)
next
  case False
  then have ne: "processMessages decode verify raw \<noteq> []"
    by (simp add: processMessages_def)
  have mx: "mathMax (map pm_sequenceNumber (processMessages decode verify raw)) =
      Max (tm_sequence_number ` set raw)"
    using False by (simp add: processMessages_sequence mathMax_Max)
  show ?thesis
    using assms False ne
    by (simp add: poll_def getMessages_def Let_def scheduleNextPoll_def mx)
qed

lemma buildUrl_filter:
  "0 \<le> n \<Longrightarrow> url_gte (buildUrl config (Some (n + 1)) limit) = Some (n + 1)"
  by (simp add: buildUrl_def)

lemma fetchedBy_Cons:
  assumes "fetchedBy decode verify (fetch # fetches) c = Some raws"
  obtains raw rest where
    "fetch (buildUrl (mc_config c) (Some (mc_lastSequenceNumber c + 1)) 100) = FetchOk raw"
    "answers (buildUrl (mc_config c) (Some (mc_lastSequenceNumber c + 1)) 100) raw"
    "fetchedBy decode verify fetches (fst (poll decode verify fetch c)) = Some rest"
    "raws = raw @ rest"
  using assms by (auto split: fetched.splits if_splits option.splits)

lemma answers_above:
  assumes "0 \<le> mc_lastSequenceNumber c"
    and "answers (buildUrl (mc_config c) (Some (mc_lastSequenceNumber c + 1)) 100) raw"
    and "m \<in> set raw"
  shows "mc_lastSequenceNumber c < tm_sequence_number m"
  using assms by (auto simp: answers_def buildUrl_filter list_all_iff)

lemma pollRun_facts:
  assumes "mc_isPolling c" and "0 \<le> mc_lastSequenceNumber c"
    and "fetchedBy decode verify fetches c = Some raws"
  shows "mc_lastSequenceNumber c \<le> mc_lastSequenceNumber (fst (pollRun decode verify fetches c)) \<and>
     (raws = [] \<longrightarrow>
        mc_lastSequenceNumber (fst (pollRun decode verify fetches c)) = mc_lastSequenceNumber c) \<and>
     (raws \<noteq> [] \<longrightarrow>
        mc_lastSequenceNumber (fst (pollRun decode verify fetches c))
          \<in> tm_sequence_number ` set raws) \<and>
     (\<forall>m \<in> set raws.
        tm_sequence_number m \<le> mc_lastSequenceNumber (fst (pollRun decode verify fetches c))) \<and>
     snd (pollRun decode verify fetches c) =
       handedTo (mc_messageCallbacks c) (processMessages decode verify raws)"
  using assms
proof (induction fetches arbitrary: c raws)
  case Nil
  then show ?case by (simp add: handedTo_def processMessages_def)
next
  case (Cons fetch fetches)
  from Cons.prems(3) obtain raw rest where
    ok: "fetch (buildUrl (mc_config c) (Some (mc_lastSequenceNumber c + 1)) 100) = FetchOk raw"
    and ans: "answers (buildUrl (mc_config c) (Some (mc_lastSequenceNumber c + 1)) 100) raw"
    and rest: "fetchedBy decode verify fetches (fst (poll decode verify fetch c)) = Some rest"
    and raws: "raws = raw @ rest"
    by (rule fetchedBy_Cons)
  define c1 where "c1 = fst (poll decode verify fetch c)"
  define c' where "c' = fst (pollRun decode verify fetches c1)"
  have p: "poll decode verify fetch c =
     (c\<lparr>mc_lastSequenceNumber :=
          (if raw = [] then mc_lastSequenceNumber c else Max (tm_sequence_number ` set raw)),
        mc_retryCount := 0, mc_pollTimeout := Some (pollInterval (mc_config c))\<rparr>,
      handedTo (mc_messageCallbacks c) (processMessages decode verify raw))"
    by (rule poll_ok [where fetch = fetch and c = c, OF Cons.prems(1) ok])
  have c1: "mc_isPolling c1" "mc_messageCallbacks c1 = mc_messageCallbacks c"
    "mc_lastSequenceNumber c1 =
       (if raw = [] then mc_lastSequenceNumber c else Max (tm_sequence_number ` set raw))"
    using Cons.prems(1) by (simp_all add: c1_def p)
  have above: "\<And>m. m \<in> set raw \<Longrightarrow> mc_lastSequenceNumber c < tm_sequence_number m"
    by (rule answers_above [OF Cons.prems(2) ans])
  have le_max: "\<And>m. m \<in> set raw \<Longrightarrow> tm_sequence_number m \<le> mc_lastSequenceNumber c1"
    by (auto simp: c1)
  have max_in: "raw \<noteq> [] \<Longrightarrow> mc_lastSequenceNumber c1 \<in> tm_sequence_number ` set raw"
    using Max_in [of "tm_sequence_number ` set raw"] by (simp add: c1)
  have mono1: "mc_lastSequenceNumber c \<le> mc_lastSequenceNumber c1"
  proof (cases raw)
    case Nil
    then show ?thesis by (simp add: c1)
  next
    case (Cons m ms)
    then have "m \<in> set raw" by simp
    from above [OF this] le_max [OF this] show ?thesis by simp
  qed
  then have pos1: "0 \<le> mc_lastSequenceNumber c1"
    using Cons.prems(2) by simp
  note IH = Cons.IH [OF c1(1) pos1 rest [folded c1_def], folded c'_def]
  have run: "pollRun decode verify (fetch # fetches) c =
      (c', handedTo (mc_messageCallbacks c) (processMessages decode verify raw) @
           snd (pollRun decode verify fetches c1))"
    by (simp add: p c1_def c'_def split_beta)
  have d: "snd (pollRun decode verify (fetch # fetches) c) =
      handedTo (mc_messageCallbacks c) (processMessages decode verify raws)"
    using IH by (simp add: run raws c1(2) processMessages_def handedTo_append del: pollRun.simps)
  have mono: "mc_lastSequenceNumber c \<le> mc_lastSequenceNumber c'"
    using mono1 IH by simp
  have empty: "raws = [] \<longrightarrow> mc_lastSequenceNumber c' = mc_lastSequenceNumber c"
    using IH by (simp add: raws c1)
  have member: "raws \<noteq> [] \<longrightarrow> mc_lastSequenceNumber c' \<in> tm_sequence_number ` set raws"
  proof (cases "rest = []")
    case True
    then show ?thesis using IH max_in by (auto simp: raws)
  next
    case False
    then show ?thesis using IH by (auto simp: raws)
  qed
  have upper: "\<forall>m \<in> set raws. tm_sequence_number m \<le> mc_lastSequenceNumber c'"
    using IH le_max by (fastforce simp: raws)
  show ?case
    using mono empty member upper d by (simp add: run del: pollRun.simps)
qed

lemma cursorTrace_nonempty: "cursorTrace decode verify fetches c \<noteq> []"
  by (cases fetches) simp_all

lemma cursorTrace_lower:
  assumes "mc_isPolling c" and "0 \<le> mc_lastSequenceNumber c"
    and "fetchedBy decode verify fetches c = Some raws"
  shows "\<forall>x \<in> set (cursorTrace decode verify fetches c). mc_lastSequenceNumber c \<le> x"
  using assms
proof (induction fetches arbitrary: c raws)
  case Nil
  then show ?case by simp
next
  case (Cons fetch fetches)
  from Cons.prems(3) obtain raw rest where
    ok: "fetch (buildUrl (mc_config c) (Some (mc_lastSequenceNumber c + 1)) 100) = FetchOk raw"
    and ans: "answers (buildUrl (mc_config c) (Some (mc_lastSequenceNumber c + 1)) 100) raw"
    and rest: "fetchedBy decode verify fetches (fst (poll decode verify fetch c)) = Some rest"
    by (rule fetchedBy_Cons)
  define c1 where "c1 = fst (poll decode verify fetch c)"
  have one: "fetchedBy decode verify [fetch] c = Some raw"
    using ok ans by simp
  have mono1: "mc_lastSequenceNumber c \<le> mc_lastSequenceNumber c1"
    using pollRun_facts [OF Cons.prems(1,2) one] by (simp add: c1_def split_beta)
  have pol1: "mc_isPolling c1"
    using Cons.prems(1) by (simp add: c1_def poll_ok [where fetch = fetch and c = c, OF Cons.prems(1) ok])
  have "\<forall>x \<in> set (cursorTrace decode verify fetches c1). mc_lastSequenceNumber c1 \<le> x"
    using Cons.IH [OF pol1 _ rest [folded c1_def]] mono1 Cons.prems(2) by simp
  then show ?case using mono1 by (auto simp: c1_def)
qed

lemma cursorTrace_sorted:
  assumes "mc_isPolling c" and "0 \<le> mc_lastSequenceNumber c"
    and "fetchedBy decode verify fetches c = Some raws"
  shows "sorted (cursorTrace decode verify fetches c)"
  using assms
proof (induction fetches arbitrary: c raws)
  case Nil
  then show ?case by simp
next
  case (Cons fetch fetches)
  from Cons.prems(3) obtain raw rest where
    ok: "fetch (buildUrl (mc_config c) (Some (mc_lastSequenceNumber c + 1)) 100) = FetchOk raw"
    and ans: "answers (buildUrl (mc_config c) (Some (mc_lastSequenceNumber c + 1)) 100) raw"
    and rest: "fetchedBy decode verify fetches (fst (poll decode verify fetch c)) = Some rest"
    by (rule fetchedBy_Cons)
  define c1 where "c1 = fst (poll decode verify fetch c)"
  have one: "fetchedBy decode verify [fetch] c = Some raw"
    using ok ans by simp
  have mono1: "mc_lastSequenceNumber c \<le> mc_lastSequenceNumber c1"
    using pollRun_facts [OF Cons.prems(1,2) one] by (simp add: c1_def split_beta)
  have pol1: "mc_isPolling c1"
    using Cons.prems(1) by (simp add: c1_def poll_ok [where fetch = fetch and c = c, OF Cons.prems(1) ok])
  have pos1: "0 \<le> mc_lastSequenceNumber c1"
    using mono1 Cons.prems(2) by simp
  have "sorted (cursorTrace decode verify fetches c1)"
    by (rule Cons.IH [OF pol1 pos1 rest [folded c1_def]])
  moreover have "\<forall>x \<in> set (cursorTrace decode verify fetches c1). mc_lastSequenceNumber c \<le> x"
    using cursorTrace_lower [OF pol1 pos1 rest [folded c1_def]] mono1 by auto
  ultimately show ?case by (simp add: c1_def)
qed

text \<open>
  Claim C6. Take a client that is polling from a cursor \<open>\<ge> 0\<close> and a run of poll
  cycles each of which fetches successfully from a service that honours the
  sequence-number filter of the request. Then the cursor values before and after
  each cycle are non-decreasing in time; every fetched event, valid or invalid, is
  handed to every registered callback with its sequence number; and once anything
  has been delivered, the cursor is the maximum sequence number delivered.
\<close>

theorem cursor_is_max_of_delivered:
  assumes "mc_isPolling c" and "0 \<le> mc_lastSequenceNumber c"
    and "fetchedBy decode verify fetches c = Some raws"
  shows "sorted (cursorTrace decode verify fetches c) \<and>
     last (cursorTrace decode verify fetches c) =
       mc_lastSequenceNumber (fst (pollRun decode verify fetches c)) \<and>
     snd (pollRun decode verify fetches c) =
       handedTo (mc_messageCallbacks c) (processMessages decode verify raws) \<and>
     map pm_sequenceNumber (processMessages decode verify raws) = map tm_sequence_number raws \<and>
     (snd (pollRun decode verify fetches c) \<noteq> [] \<longrightarrow>
        mc_lastSequenceNumber (fst (pollRun decode verify fetches c)) =
          Max ((pm_sequenceNumber \<circ> snd) ` set (snd (pollRun decode verify fetches c))))"
proof -
  note facts = pollRun_facts [OF assms]
  have tr: "last (cursorTrace decode verify fetches c) =
       mc_lastSequenceNumber (fst (pollRun decode verify fetches c))" for c
    by (induction fetches arbitrary: c) (simp_all add: split_beta cursorTrace_nonempty)
  have mx: "mc_lastSequenceNumber (fst (pollRun decode verify fetches c)) =
      Max ((pm_sequenceNumber \<circ> snd) ` set (snd (pollRun decode verify fetches c)))"
    if ne: "snd (pollRun decode verify fetches c) \<noteq> []"
  proof -
    have d: "snd (pollRun decode verify fetches c) =
        handedTo (mc_messageCallbacks c) (processMessages decode verify raws)"
      using facts by simp
    from ne have cbs: "mc_messageCallbacks c \<noteq> []" and ms: "raws \<noteq> []"
      using handedTo_nonempty [of "mc_messageCallbacks c" "processMessages decode verify raws"]
      by (auto simp: d processMessages_def)
    have set_eq: "(pm_sequenceNumber \<circ> snd) ` set (snd (pollRun decode verify fetches c)) =
        tm_sequence_number ` set raws"
      using handedTo_sequence [OF cbs, of "processMessages decode verify raws"]
        processMessages_sequence [of decode verify raws]
      by (metis d image_set)
    show ?thesis
      unfolding set_eq using facts ms by (intro Max_eqI [symmetric]) auto
  qed
  show ?thesis
    using cursorTrace_sorted [OF assms] tr facts mx
    by (simp add: processMessages_sequence)
qed

theorem cursor_is_max_of_delivered_witness:
  "cursorTrace decode0 verify0 threeCycles client0 = [0, 2, 2, 3] \<and>
   mc_lastSequenceNumber (fst (pollRun decode0 verify0 threeCycles client0)) = 3 \<and>
   map (\<lambda>d. (fst d, pm_sequenceNumber (snd d), pm_isValid (snd d)))
     (snd (pollRun decode0 verify0 threeCycles client0)) =
     [(0, 1, True), (1, 1, True), (0, 2, False), (1, 2, False), (0, 3, True), (1, 3, True)]"
proof -
  have p: "mc_isPolling client0" and z: "0 \<le> mc_lastSequenceNumber client0"
    by (simp_all add: client0_def)
  have f: "fetchedBy decode0 verify0 threeCycles client0 =
      Some [topicMessage 1 ''flow'', topicMessage 2 ''junk'', topicMessage 3 ''flow'']"
    by (simp add: client_eval)
  have t: "cursorTrace decode0 verify0 threeCycles client0 = [0, 2, 2, 3]"
    by (simp add: client_eval)
  show ?thesis
    using cursor_is_max_of_delivered [OF p z f] t
    by (simp add: client_eval)
qed

end
